theory Spec2Isabelle
  imports Main
begin

section \<open>Strings\<close>

text \<open>
  The program is TypeScript/JavaScript and works on strings throughout. A string is
  modelled as a \<open>char list\<close>; an ASCII character is one \<open>char\<close>, any other character
  stands as the bytes of its UTF-8 encoding. The helpers below are the string methods
  the sources call. \<open>toLowerCase\<close> and \<open>toUpperCase\<close> map the ASCII letters and
  leave every other character as it is; the case mappings of other letters are not
  modelled.
\<close>

definition is_upper :: "char \<Rightarrow> bool" where
  "is_upper c = (65 \<le> (of_char c :: nat) \<and> (of_char c :: nat) \<le> 90)"

definition is_lower :: "char \<Rightarrow> bool" where
  "is_lower c = (97 \<le> (of_char c :: nat) \<and> (of_char c :: nat) \<le> 122)"

definition is_digit :: "char \<Rightarrow> bool" where
  "is_digit c = (48 \<le> (of_char c :: nat) \<and> (of_char c :: nat) \<le> 57)"

definition lower_char :: "char \<Rightarrow> char" where
  "lower_char c = (if is_upper c then char_of ((of_char c :: nat) + 32) else c)"

definition toLowerCase :: "string \<Rightarrow> string" where
  "toLowerCase s = map lower_char s"

definition upper_char :: "char \<Rightarrow> char" where
  "upper_char c = (if is_lower c then char_of ((of_char c :: nat) - 32) else c)"

definition toUpperCase :: "string \<Rightarrow> string" where
  "toUpperCase s = map upper_char s"

fun startsWith :: "string \<Rightarrow> string \<Rightarrow> bool" where
  "startsWith s [] = True"
| "startsWith [] (p # ps) = False"
| "startsWith (c # cs) (p # ps) = (c = p \<and> startsWith cs ps)"

definition endsWith :: "string \<Rightarrow> string \<Rightarrow> bool" where
  "endsWith s p = startsWith (rev s) (rev p)"

fun str_includes :: "string \<Rightarrow> string \<Rightarrow> bool" where
  "str_includes [] sub = (sub = [])"
| "str_includes (c # cs) sub = (startsWith (c # cs) sub \<or> str_includes cs sub)"

text \<open>\<open>indexOf\<close> returns \<open>None\<close> where JavaScript returns \<open>-1\<close>.\<close>

fun indexOf :: "string \<Rightarrow> string \<Rightarrow> nat option" where
  "indexOf [] sub = (if sub = [] then Some 0 else None)"
| "indexOf (c # cs) sub =
     (if startsWith (c # cs) sub then Some 0
      else (case indexOf cs sub of None \<Rightarrow> None | Some i \<Rightarrow> Some (Suc i)))"

text \<open>
  \<open>s.split(c)\<close> for a one-character separator and \<open>lines.join(sep)\<close>. Splitting the
  empty string gives one empty piece.
\<close>

fun js_split :: "char \<Rightarrow> string \<Rightarrow> string list" where
  "js_split sep [] = [[]]"
| "js_split sep (c # cs) =
     (if c = sep then [] # js_split sep cs
      else (case js_split sep cs of [] \<Rightarrow> [[c]] | l # ls \<Rightarrow> (c # l) # ls))"

fun js_join :: "string \<Rightarrow> string list \<Rightarrow> string" where
  "js_join sep [] = []"
| "js_join sep [l] = l"
| "js_join sep (l # m # ls) = l @ sep @ js_join sep (m # ls)"

text \<open>
  White space as \<open>\s\<close> and \<open>trim()\<close> see it: the ASCII characters space, tab, line
  feed, vertical tab, form feed and carriage return, and the Unicode characters U+00A0,
  U+1680, U+2000 to U+200A, U+2028, U+2029, U+202F, U+205F, U+3000 and U+FEFF, each with
  the bytes of its encoding. \<open>space_length\<close> is the number of bytes of the white-space
  character that a text starts with, or 0; \<open>space_length_end\<close> is the same for the
  character that a text ends with, the text being given reversed.
\<close>

definition is_space :: "char \<Rightarrow> bool" where
  "is_space c = (c = CHR '' '' \<or> (9 \<le> (of_char c :: nat) \<and> (of_char c :: nat) \<le> 13))"

definition unicode_spaces :: "string list" where
  "unicode_spaces =
     [[CHR 0xC2, CHR 0xA0], [CHR 0xE1, CHR 0x9A, CHR 0x80],
      [CHR 0xE2, CHR 0x80, CHR 0x80], [CHR 0xE2, CHR 0x80, CHR 0x81],
      [CHR 0xE2, CHR 0x80, CHR 0x82], [CHR 0xE2, CHR 0x80, CHR 0x83],
      [CHR 0xE2, CHR 0x80, CHR 0x84], [CHR 0xE2, CHR 0x80, CHR 0x85],
      [CHR 0xE2, CHR 0x80, CHR 0x86], [CHR 0xE2, CHR 0x80, CHR 0x87],
      [CHR 0xE2, CHR 0x80, CHR 0x88], [CHR 0xE2, CHR 0x80, CHR 0x89],
      [CHR 0xE2, CHR 0x80, CHR 0x8A], [CHR 0xE2, CHR 0x80, CHR 0xA8],
      [CHR 0xE2, CHR 0x80, CHR 0xA9], [CHR 0xE2, CHR 0x80, CHR 0xAF],
      [CHR 0xE2, CHR 0x81, CHR 0x9F], [CHR 0xE3, CHR 0x80, CHR 0x80],
      [CHR 0xEF, CHR 0xBB, CHR 0xBF]]"

definition space_length :: "string \<Rightarrow> nat" where
  "space_length s =
     (case s of
        [] \<Rightarrow> 0
      | c # _ \<Rightarrow>
          if is_space c then 1
          else (case find (startsWith s) unicode_spaces of None \<Rightarrow> 0 | Some q \<Rightarrow> length q))"

definition space_length_end :: "string \<Rightarrow> nat" where
  "space_length_end r =
     (case r of
        [] \<Rightarrow> 0
      | c # _ \<Rightarrow>
          if is_space c then 1
          else (case find (\<lambda>q. startsWith r (rev q)) unicode_spaces of
                  None \<Rightarrow> 0
                | Some q \<Rightarrow> length q))"

text \<open>
  A line terminator, for \<open>.\<close> and for \<open>^\<close> and \<open>$\<close> under the \<open>m\<close> flag, is a line
  feed, a carriage return, the line separator U+2028 or the paragraph separator U+2029.
  \<open>at_line_end\<close> tells whether the text from a position on starts with a terminator,
  \<open>after_line_end\<close> whether the text before it (held reversed) ends with one.
\<close>

definition line_terminators :: "string list" where
  "line_terminators =
     [[CHR 0x0A], [CHR 0x0D], [CHR 0xE2, CHR 0x80, CHR 0xA8], [CHR 0xE2, CHR 0x80, CHR 0xA9]]"

definition at_line_end :: "string \<Rightarrow> bool" where
  "at_line_end rest = list_ex (startsWith rest) line_terminators"

definition after_line_end :: "string \<Rightarrow> bool" where
  "after_line_end prev = list_ex (\<lambda>t. startsWith prev (rev t)) line_terminators"

text \<open>
  The bytes that follow the first byte of a character in its encoding are those from 80
  to BF.
\<close>

definition is_continuation :: "char \<Rightarrow> bool" where
  "is_continuation c = (128 \<le> (of_char c :: nat) \<and> (of_char c :: nat) \<le> 191)"

definition is_word :: "char \<Rightarrow> bool" where
  "is_word c = (is_upper c \<or> is_lower c \<or> is_digit c \<or> c = CHR ''_'')"

text \<open>
  \<open>trim()\<close> removes the white space at both ends. \<open>strip\<close> removes, as long as there
  is one, the character at the start whose length the first argument finds.
\<close>

function strip :: "(string \<Rightarrow> nat) \<Rightarrow> string \<Rightarrow> string" where
  "strip len s = (if len s = 0 \<or> s = [] then s else strip len (drop (len s) s))"
  by pat_completeness auto
termination
  by (relation "measure (\<lambda>(len, s). length s)") auto

declare strip.simps [simp del]

definition trim :: "string \<Rightarrow> string" where
  "trim s = rev (strip space_length_end (rev (strip space_length s)))"
section \<open>Regular expressions\<close>

text \<open>
  The sources rewrite text with JavaScript regular expressions. Each expression is
  transcribed as a term of \<open>rx\<close> and run by a backtracking matcher with JavaScript's
  priorities: the leftmost start, the first alternative, greedy or lazy repetition as
  written. Flags are transcribed into the term: \<open>^\<close> and \<open>$\<close> are \<open>Bos\<close> and \<open>Eos\<close>
  without the \<open>m\<close> flag and \<open>Bol\<close> and \<open>Eol\<close> with it; \<open>.\<close> is \<open>Dot\<close> without the
  \<open>s\<close> flag and \<open>Ch any_char\<close> with it; \<open>\s\<close> is \<open>Space\<close>.

  The matcher works on characters. A class \<open>Ch p\<close> takes one character, all its
  bytes, when \<open>p\<close> holds of the first byte: the classes of the sources list ASCII
  characters, so a character outside ASCII is in a class exactly when the class is a
  negated one. \<open>Dot\<close> takes one character that is no line terminator, \<open>Space\<close> one
  white-space character, and a match starts at the first byte of a character. (A
  character outside the Basic Multilingual Plane is two units for JavaScript and one
  character here.)

  A matcher state is the text before the position (reversed), the text after it, and
  the capture groups set so far. The matcher is written with a continuation for what
  follows, so that a later failure backtracks into an earlier choice. An iteration of a
  repetition that consumes nothing is rejected, as in JavaScript. (Groups inside a
  repetition are not reset between iterations; no expression here depends on it.)
\<close>

datatype rx =
    Ch "char \<Rightarrow> bool"
  | Dot
  | Space
  | Lit string
  | Seq rx rx
  | Alt rx rx
  | Star bool rx
  | Group nat rx
  | Bos | Eos | Bol | Eol
  | Ahead rx
  | NotAhead rx
  | Backref nat
  | Eps

type_synonym caps = "(nat \<times> string) list"
type_synonym mstate = "string \<times> string \<times> caps"

fun strip_prefix :: "string \<Rightarrow> string \<Rightarrow> string option" where
  "strip_prefix [] s = Some s"
| "strip_prefix (p # ps) [] = None"
| "strip_prefix (p # ps) (c # cs) = (if p = c then strip_prefix ps cs else None)"

definition m_lit :: "string \<Rightarrow> mstate \<Rightarrow> (mstate \<Rightarrow> mstate option) \<Rightarrow> mstate option" where
  "m_lit l s k =
     (case s of (prev, rest, cs) \<Rightarrow>
        (case strip_prefix l rest of None \<Rightarrow> None | Some rest' \<Rightarrow> k (rev l @ prev, rest', cs)))"

fun star_greedy :: "nat \<Rightarrow> (mstate \<Rightarrow> (mstate \<Rightarrow> mstate option) \<Rightarrow> mstate option)
     \<Rightarrow> mstate \<Rightarrow> (mstate \<Rightarrow> mstate option) \<Rightarrow> mstate option" where
  "star_greedy 0 f s k = k s"
| "star_greedy (Suc n) f s k =
     (case f s (\<lambda>s'. if length (fst (snd s')) < length (fst (snd s))
                      then star_greedy n f s' k else None) of
        Some r \<Rightarrow> Some r
      | None \<Rightarrow> k s)"

fun star_lazy :: "nat \<Rightarrow> (mstate \<Rightarrow> (mstate \<Rightarrow> mstate option) \<Rightarrow> mstate option)
     \<Rightarrow> mstate \<Rightarrow> (mstate \<Rightarrow> mstate option) \<Rightarrow> mstate option" where
  "star_lazy 0 f s k = k s"
| "star_lazy (Suc n) f s k =
     (case k s of
        Some r \<Rightarrow> Some r
      | None \<Rightarrow> f s (\<lambda>s'. if length (fst (snd s')) < length (fst (snd s))
                           then star_lazy n f s' k else None))"

text \<open>
  Every iteration of a repetition consumes at least one character, so the number of
  characters left bounds the number of iterations.
\<close>

definition m_char :: "mstate \<Rightarrow> (mstate \<Rightarrow> mstate option) \<Rightarrow> mstate option" where
  "m_char s k =
     (case s of (prev, rest, cs) \<Rightarrow>
        (case rest of
           [] \<Rightarrow> None
         | c # r \<Rightarrow>
             k (rev (takeWhile is_continuation r) @ c # prev, dropWhile is_continuation r, cs)))"

primrec rx_m :: "rx \<Rightarrow> mstate \<Rightarrow> (mstate \<Rightarrow> mstate option) \<Rightarrow> mstate option" where
  "rx_m (Ch p) s k =
     (case fst (snd s) of [] \<Rightarrow> None | c # r \<Rightarrow> if p c then m_char s k else None)"
| "rx_m Dot s k = (if at_line_end (fst (snd s)) then None else m_char s k)"
| "rx_m Space s k =
     (case s of (prev, rest, cs) \<Rightarrow>
        (if space_length rest = 0 then None
         else k (rev (take (space_length rest) rest) @ prev,
                 drop (space_length rest) rest, cs)))"
| "rx_m (Lit l) s k = m_lit l s k"
| "rx_m (Seq a b) s k = rx_m a s (\<lambda>s'. rx_m b s' k)"
| "rx_m (Alt a b) s k = (case rx_m a s k of Some r \<Rightarrow> Some r | None \<Rightarrow> rx_m b s k)"
| "rx_m (Star greedy a) s k =
     (if greedy then star_greedy (length (fst (snd s))) (rx_m a) s k
      else star_lazy (length (fst (snd s))) (rx_m a) s k)"
| "rx_m (Group n a) s k =
     rx_m a s (\<lambda>s'. case s' of (prev', rest', cs') \<Rightarrow>
        k (prev', rest', (n, take (length (fst (snd s)) - length rest') (fst (snd s))) # cs'))"
| "rx_m Bos s k = (if fst s = [] then k s else None)"
| "rx_m Eos s k = (if fst (snd s) = [] then k s else None)"
| "rx_m Bol s k = (if fst s = [] \<or> after_line_end (fst s) then k s else None)"
| "rx_m Eol s k = (if fst (snd s) = [] \<or> at_line_end (fst (snd s)) then k s else None)"
| "rx_m (Ahead a) s k =
     (case rx_m a s Some of None \<Rightarrow> None | Some s' \<Rightarrow> k (fst s, fst (snd s), snd (snd s')))"
| "rx_m (NotAhead a) s k = (case rx_m a s Some of None \<Rightarrow> k s | Some s' \<Rightarrow> None)"
| "rx_m (Backref n) s k =
     (case map_of (snd (snd s)) n of None \<Rightarrow> k s | Some t \<Rightarrow> m_lit t s k)"
| "rx_m Eps s k = k s"

text \<open>Derived forms: \<open>r+\<close>, \<open>r?\<close>, \<open>r{n,}\<close>, a sequence, and the character classes.\<close>

definition Plus :: "bool \<Rightarrow> rx \<Rightarrow> rx" where
  "Plus greedy r = Seq r (Star greedy r)"

definition Opt :: "rx \<Rightarrow> rx" where
  "Opt r = Alt r Eps"

fun AtLeast :: "nat \<Rightarrow> rx \<Rightarrow> rx" where
  "AtLeast 0 r = Star True r"
| "AtLeast (Suc n) r = Seq r (AtLeast n r)"

fun Seqs :: "rx list \<Rightarrow> rx" where
  "Seqs [] = Eps"
| "Seqs [r] = r"
| "Seqs (r # q # rs) = Seq r (Seqs (q # rs))"

fun Alts :: "rx list \<Rightarrow> rx" where
  "Alts [] = Eps"
| "Alts [r] = r"
| "Alts (r # q # rs) = Alt r (Alts (q # rs))"

definition any_char :: "char \<Rightarrow> bool" where
  "any_char c = True"

definition one_of :: "string \<Rightarrow> char \<Rightarrow> bool" where
  "one_of cs c = (c \<in> set cs)"

definition none_of :: "string \<Rightarrow> char \<Rightarrow> bool" where
  "none_of cs c = (c \<notin> set cs)"

text \<open>
  A match at a position gives the matched text, the groups, and the text left after it.
  \<open>grp\<close> reads a group as a replacement pattern \<open>$n\<close> does: an unset group is empty.
\<close>

definition rx_at :: "rx \<Rightarrow> string \<Rightarrow> string \<Rightarrow> (string \<times> caps \<times> string) option" where
  "rx_at r prev rest =
     (if (case rest of [] \<Rightarrow> False | c # _ \<Rightarrow> is_continuation c) then None
      else
        (case rx_m r (prev, rest, []) Some of
           None \<Rightarrow> None
         | Some (prev', rest', cs) \<Rightarrow>
             Some (take (length rest - length rest') rest, cs, rest')))"

definition grp :: "caps \<Rightarrow> nat \<Rightarrow> string" where
  "grp cs n = (case map_of cs n of None \<Rightarrow> [] | Some t \<Rightarrow> t)"

text \<open>
  \<open>s.match(r)\<close> and \<open>r.test(s)\<close> without the \<open>g\<close> flag: the first position, from the
  left, where the expression matches.
\<close>

fun rx_search :: "rx \<Rightarrow> string \<Rightarrow> string \<Rightarrow> (string \<times> caps) option" where
  "rx_search r prev [] =
     (case rx_at r prev [] of None \<Rightarrow> None | Some (m, cs, _) \<Rightarrow> Some (m, cs))"
| "rx_search r prev (c # cs) =
     (case rx_at r prev (c # cs) of
        Some (m, g, _) \<Rightarrow> Some (m, g)
      | None \<Rightarrow> rx_search r (c # prev) cs)"

definition rx_match :: "rx \<Rightarrow> string \<Rightarrow> (string \<times> caps) option" where
  "rx_match r s = rx_search r [] s"

definition rx_test :: "rx \<Rightarrow> string \<Rightarrow> bool" where
  "rx_test r s = (rx_match r s \<noteq> None)"

text \<open>
  \<open>s.replace(r, f)\<close> with the \<open>g\<close> flag: matches are found from left to right, each
  search starting where the previous match ended (one character further after an empty
  match); each match is replaced by what \<open>f\<close> returns for the matched text and its
  groups. The third argument counts the characters of the current match still to skip.
\<close>

fun rx_scan :: "rx \<Rightarrow> (string \<Rightarrow> caps \<Rightarrow> string) \<Rightarrow> string \<Rightarrow> string \<Rightarrow> nat \<Rightarrow> string" where
  "rx_scan r f prev [] skip =
     (case rx_at r prev [] of None \<Rightarrow> [] | Some (m, g, _) \<Rightarrow> f m g)"
| "rx_scan r f prev (c # cs) (Suc n) = rx_scan r f (c # prev) cs n"
| "rx_scan r f prev (c # cs) 0 =
     (case rx_at r prev (c # cs) of
        None \<Rightarrow> c # rx_scan r f (c # prev) cs 0
      | Some (m, g, _) \<Rightarrow>
          (if m = [] then f m g @ c # rx_scan r f (c # prev) cs 0
           else f m g @ rx_scan r f (c # prev) cs (length m - 1)))"

definition replace_all :: "rx \<Rightarrow> (string \<Rightarrow> caps \<Rightarrow> string) \<Rightarrow> string \<Rightarrow> string" where
  "replace_all r f s = rx_scan r f [] s 0"

text \<open>\<open>s.replace(r, f)\<close> without the \<open>g\<close> flag replaces the first match only.\<close>

fun rx_scan1 :: "rx \<Rightarrow> (string \<Rightarrow> caps \<Rightarrow> string) \<Rightarrow> string \<Rightarrow> string \<Rightarrow> string" where
  "rx_scan1 r f prev [] =
     (case rx_at r prev [] of None \<Rightarrow> [] | Some (m, g, _) \<Rightarrow> f m g)"
| "rx_scan1 r f prev (c # cs) =
     (case rx_at r prev (c # cs) of
        None \<Rightarrow> c # rx_scan1 r f (c # prev) cs
      | Some (m, g, rest') \<Rightarrow> f m g @ rest')"

definition replace_first :: "rx \<Rightarrow> (string \<Rightarrow> caps \<Rightarrow> string) \<Rightarrow> string \<Rightarrow> string" where
  "replace_first r f s = rx_scan1 r f [] s"

text \<open>The number of matches of \<open>s.match(r)\<close> with the \<open>g\<close> flag, and the matched texts.\<close>

fun rx_all :: "rx \<Rightarrow> string \<Rightarrow> string \<Rightarrow> nat \<Rightarrow> (string \<times> caps) list" where
  "rx_all r prev [] skip =
     (case rx_at r prev [] of None \<Rightarrow> [] | Some (m, g, _) \<Rightarrow> [(m, g)])"
| "rx_all r prev (c # cs) (Suc n) = rx_all r (c # prev) cs n"
| "rx_all r prev (c # cs) 0 =
     (case rx_at r prev (c # cs) of
        None \<Rightarrow> rx_all r (c # prev) cs 0
      | Some (m, g, _) \<Rightarrow> (m, g) # rx_all r (c # prev) cs (length m - 1))"

definition match_all :: "rx \<Rightarrow> string \<Rightarrow> (string \<times> caps) list" where
  "match_all r s = rx_all r [] s 0"

section \<open>utils.ts: slugify\<close>

text \<open>
  \<^verbatim>\<open>text.toLowerCase().replace(/[^a-z0-9]+/g, '-').replace(/^-+|-+$/g, '')\<close>

  The first replacement turns every maximal run of characters outside \<open>[a-z0-9]\<close> into
  one hyphen; the second removes the run of hyphens at the start and the run at the end
  of the string (\<open>^\<close> and \<open>$\<close> carry no \<open>m\<close> flag, so they are the ends of the string).
\<close>

definition is_slug_alnum :: "char \<Rightarrow> bool" where
  "is_slug_alnum c = (is_lower c \<or> is_digit c)"

function collapse_non_alnum :: "string \<Rightarrow> string" where
  "collapse_non_alnum [] = []"
| "collapse_non_alnum (c # cs) =
     (if is_slug_alnum c then c # collapse_non_alnum cs
      else CHR ''-'' # collapse_non_alnum (dropWhile (\<lambda>d. \<not> is_slug_alnum d) cs))"
  by pat_completeness auto
termination
  by (relation "measure length") (auto simp: less_Suc_eq_le length_dropWhile_le)

definition is_hyphen :: "char \<Rightarrow> bool" where
  "is_hyphen c = (c = CHR ''-'')"

definition strip_hyphens :: "string \<Rightarrow> string" where
  "strip_hyphens s = rev (dropWhile is_hyphen (rev (dropWhile is_hyphen s)))"

definition slugify :: "string \<Rightarrow> string" where
  "slugify text = strip_hyphens (collapse_non_alnum (toLowerCase text))"

definition is_slug_char :: "char \<Rightarrow> bool" where
  "is_slug_char c = (is_lower c \<or> is_digit c \<or> c = CHR ''-'')"

section \<open>The declaration graph\<close>

text \<open>
  The renderer reads TypeDoc's reflection objects. Only the fields the sources read are
  kept. A comment is a summary and block tags, each a list of display parts
  \<open>{kind?, text?}\<close>; an absent list is the empty list (the sources treat both alike).
\<close>

datatype display_part = Part (part_kind: "string option") (part_text: "string option")

datatype comment_tag = Tag (tag_name: string) (tag_content: "display_part list")

datatype comment = Comment (c_summary: "display_part list") (c_blockTags: "comment_tag list")

text \<open>
  A literal type's value is a string, a number, a boolean, null or a bigint. Floating
  point is not modelled: a number is held as the text that \<open>JSON.stringify\<close> writes
  for it (the digits that \<open>Number::toString\<close> gives, as \<open>42\<close>, \<open>1.5\<close> or
  \<open>1e+21\<close>).
\<close>

datatype literal = LString string | LNumber string | LBoolean bool | LNull | LBigInt int

text \<open>
  The type-expression language, with the declarations a reflection type carries.
  \<open>PlainString\<close> is a string passed where a type is expected (\<open>formatType\<close> accepts
  one). \<open>Predicate\<close> keeps its name and target type. \<open>TemplateLiteral\<close> and \<open>Unknown\<close>
  carry what the object's own \<open>toString\<close> returns, if it has one. A declaration has a
  name, the numeric kind, a comment, the optional flag, a type, a default value,
  signatures and children; a signature has parameters, a return type and a comment.
\<close>

datatype jtype =
    PlainString string
  | Intrinsic string
  | Reference string "jtype list"
  | Array jtype
  | Union "jtype list"
  | Intersection "jtype list"
  | Literal literal
  | Tuple "jtype list"
  | ReflectionT "reflection option"
  | Conditional jtype jtype jtype jtype
  | IndexedAccess jtype jtype
  | Query "string option"
  | Predicate "string option" "jtype option"
  | TemplateLiteral "string option"
  | Unknown "string option"
and reflection =
  Declaration (d_name: string) (d_kind: nat) (d_comment: "comment option")
    (d_isOptional: bool) (d_type: "jtype option") (d_defaultValue: "string option")
    (d_signatures: "signature list") (d_children: "reflection list")
and signature =
  Signature (s_parameters: "parameter list") (s_type: "jtype option")
    (s_comment: "comment option")
and parameter =
  Parameter (p_name: string) (p_isOptional: bool) (p_type: "jtype option")
    (p_comment: "comment option")

section \<open>utils.ts: sanitizeAttribute and formatType\<close>

abbreviation DQ :: char where "DQ \<equiv> CHR 0x22"
abbreviation BSL :: char where "BSL \<equiv> CHR 0x5C"
abbreviation LF :: char where "LF \<equiv> CHR 0x0A"
abbreviation CR :: char where "CR \<equiv> CHR 0x0D"

text \<open>
  \<^verbatim>\<open>text.replace(/"/g, '\\"').replace(/\n/g, ' ').replace(/\r/g, '')\<close>
  (the empty string for an absent text).
\<close>

definition sanitizeAttribute :: "string \<Rightarrow> string" where
  "sanitizeAttribute text =
     filter (\<lambda>c. c \<noteq> CR)
       (map (\<lambda>c. if c = LF then CHR '' '' else c)
          (concat (map (\<lambda>c. if c = DQ then [BSL, DQ] else [c]) text)))"

text \<open>
  Exceptions are values: a function that can raise returns \<open>Inl\<close> of the error or
  \<open>Inr\<close> of its result. \<open>and_then\<close> runs a computation on the result of another and
  hands an error on; \<open>collect\<close> gathers the results of computations done from left to
  right, as \<open>Array.map\<close> does with a callback, and stops at the first error.
\<close>

datatype error = TypeError | RangeError

definition and_then :: "error + 'a \<Rightarrow> ('a \<Rightarrow> error + 'b) \<Rightarrow> error + 'b" where
  "and_then r f = (case r of Inl e \<Rightarrow> Inl e | Inr v \<Rightarrow> f v)"

fun collect :: "(error + 'a) list \<Rightarrow> error + 'a list" where
  "collect [] = Inr []"
| "collect (r # rs) =
     (case r of
        Inl e \<Rightarrow> Inl e
      | Inr v \<Rightarrow> (case collect rs of Inl e \<Rightarrow> Inl e | Inr vs \<Rightarrow> Inr (v # vs)))"

text \<open>
  \<open>JSON.stringify\<close> of a literal value. A string is quoted and escaped; a number is
  written as JavaScript writes it; a bigint raises \<open>TypeError\<close> ("Do not know how to
  serialize a BigInt").
\<close>

definition hex_char :: "nat \<Rightarrow> char" where
  "hex_char d = (if d < 10 then char_of (48 + d) else char_of (87 + d))"

definition json_escape_char :: "char \<Rightarrow> string" where
  "json_escape_char c =
     (if c = DQ then [BSL, DQ]
      else if c = BSL then [BSL, BSL]
      else if c = CHR 0x08 then [BSL, CHR ''b'']
      else if c = CHR 0x0C then [BSL, CHR ''f'']
      else if c = LF then [BSL, CHR ''n'']
      else if c = CR then [BSL, CHR ''r'']
      else if c = CHR 0x09 then [BSL, CHR ''t'']
      else if (of_char c :: nat) < 32
        then [BSL, CHR ''u'', CHR ''0'', CHR ''0'',
              hex_char ((of_char c :: nat) div 16), hex_char ((of_char c :: nat) mod 16)]
      else [c])"

fun json_stringify :: "literal \<Rightarrow> error + string" where
  "json_stringify (LString s) = Inr (DQ # concat (map json_escape_char s) @ [DQ])"
| "json_stringify (LNumber text) = Inr text"
| "json_stringify (LBoolean b) = Inr (if b then ''true'' else ''false'')"
| "json_stringify LNull = Inr ''null''"
| "json_stringify (LBigInt i) = Inl TypeError"

text \<open>\<^verbatim>\<open>targetUrl.replace(/\.mdx$/, '')\<close>: the extension is removed from the end.\<close>

definition strip_mdx :: "string \<Rightarrow> string" where
  "strip_mdx s = (if endsWith s ''.mdx'' then take (length s - 4) s else s)"

text \<open>
  \<open>formatType(type, typeToUrlMap?, currentPageUrl?)\<close>. The map from type names to
  page URLs is optional; it is an association list in insertion order. The third
  argument is only handed on to the recursive calls and never read, so the model leaves
  it out. An absent type, and an empty string, give \<open>any\<close>. The result is the
  string returned, or the error raised: \<open>JSON.stringify\<close> raises at a bigint literal,
  and the error passes through every call above it.

  In the predicate branch the source formats \<open>predicate.type\<close>, which is the tag the
  branch has just tested, the string \<open>predicate\<close>.
\<close>

definition type_measure :: "jtype option \<Rightarrow> nat" where
  "type_measure t = (case t of None \<Rightarrow> 0 | Some u \<Rightarrow> Suc (size u))"

text \<open>The name of a reference type, wrapped in a link when the map knows it.\<close>

definition reference_name :: "(string \<times> string) list option \<Rightarrow> string \<Rightarrow> string" where
  "reference_name m n =
     (case m of
        None \<Rightarrow> n
      | Some typeToUrlMap \<Rightarrow>
          (case map_of typeToUrlMap n of
             None \<Rightarrow> n
           | Some targetUrl \<Rightarrow>
               (let cleanUrl = strip_mdx targetUrl;
                    absoluteUrl = (if startsWith cleanUrl ''/'' then cleanUrl
                                   else ''/'' @ cleanUrl)
                in ''['' @ n @ '']('' @ absoluteUrl @ '')'')))"

text \<open>\<open>v || d\<close> for an optional string: absent and empty both give the default.\<close>

definition or_default :: "string option \<Rightarrow> string \<Rightarrow> string" where
  "or_default v d = (case v of None \<Rightarrow> d | Some s \<Rightarrow> if s = [] then d else s)"

definition optional_mark :: "bool \<Rightarrow> string" where
  "optional_mark isOptional = (if isOptional then ''?'' else [])"

function formatType :: "(string \<times> string) list option \<Rightarrow> jtype option \<Rightarrow> error + string" where
  "formatType m None = Inr ''any''"
| "formatType m (Some (PlainString s)) = Inr (if s = [] then ''any'' else s)"
| "formatType m (Some (Intrinsic n)) = Inr n"
| "formatType m (Some (Reference n typeArguments)) =
     (if typeArguments \<noteq> []
      then and_then (collect (map (\<lambda>t. formatType m (Some t)) typeArguments))
             (\<lambda>args. Inr (reference_name m n @ ''<'' @ js_join '', '' args @ ''>''))
      else Inr (reference_name m n))"
| "formatType m (Some (Array elementType)) =
     and_then (formatType m (Some elementType)) (\<lambda>element. Inr (element @ ''[]''))"
| "formatType m (Some (Union types)) =
     and_then (collect (map (\<lambda>t. formatType m (Some t)) types))
       (\<lambda>parts. Inr (js_join '' | '' parts))"
| "formatType m (Some (Intersection types)) =
     and_then (collect (map (\<lambda>t. formatType m (Some t)) types))
       (\<lambda>parts. Inr (js_join '' & '' parts))"
| "formatType m (Some (Literal v)) = json_stringify v"
| "formatType m (Some (Tuple elements)) =
     and_then (collect (map (\<lambda>t. formatType m (Some t)) elements))
       (\<lambda>parts. Inr (''['' @ js_join '', '' parts @ '']''))"
| "formatType m (Some (ReflectionT None)) = Inr ''object''"
| "formatType m (Some (ReflectionT (Some reflection))) =
     (case d_signatures reflection of
        sig # _ \<Rightarrow>
          and_then
            (collect
               (map (\<lambda>p. and_then (formatType m (p_type p))
                           (\<lambda>type. Inr (p_name p @ optional_mark (p_isOptional p) @ '': ''
                                         @ type)))
                  (s_parameters sig)))
            (\<lambda>params.
               and_then (formatType m (s_type sig))
                 (\<lambda>returnType. Inr (''('' @ js_join '', '' params @ '') => '' @ returnType)))
      | [] \<Rightarrow>
          (case d_children reflection of
             [] \<Rightarrow> Inr ''object''
           | _ # _ \<Rightarrow>
               and_then
                 (collect
                    (map (\<lambda>child. and_then (formatType m (d_type child))
                                    (\<lambda>type. Inr (d_name child
                                                  @ optional_mark (d_isOptional child)
                                                  @ '': '' @ type)))
                       (d_children reflection)))
                 (\<lambda>props. Inr (''{ '' @ js_join ''; '' props @ '' }''))))"
| "formatType m (Some (Conditional checkType extendsType trueType falseType)) =
     and_then (formatType m (Some checkType)) (\<lambda>c.
     and_then (formatType m (Some extendsType)) (\<lambda>e.
     and_then (formatType m (Some trueType)) (\<lambda>t.
     and_then (formatType m (Some falseType)) (\<lambda>f.
       Inr (c @ '' extends '' @ e @ '' ? '' @ t @ '' : '' @ f)))))"
| "formatType m (Some (IndexedAccess objectType indexType)) =
     and_then (formatType m (Some objectType)) (\<lambda>ob.
     and_then (formatType m (Some indexType)) (\<lambda>ix. Inr (ob @ ''['' @ ix @ '']'')))"
| "formatType m (Some (Query queryName)) =
     Inr (''typeof '' @ or_default queryName ''unknown'')"
| "formatType m (Some (Predicate name targetType)) =
     and_then (formatType m (Some (PlainString ''predicate'')))
       (\<lambda>typeStr. Inr (or_default name ''this'' @ '' is '' @ typeStr))"
| "formatType m (Some (TemplateLiteral toString)) = Inr (or_default toString ''string'')"
| "formatType m (Some (Unknown toString)) = Inr (or_default toString ''any'')"
  by pat_completeness auto

lemma size_list_mem: "x \<in> set xs \<Longrightarrow> f x < Suc (size_list f xs)"
  by (induction xs) auto

lemma type_measure_Some: "type_measure (Some u) = Suc (size u)"
  by (simp add: type_measure_def)

lemma measure_p_type: "type_measure (p_type p) \<le> size p"
  by (cases p) (auto simp: type_measure_def split: option.splits)

lemma measure_d_type: "type_measure (d_type d) \<le> size d"
  by (cases d) (auto simp: type_measure_def split: option.splits)

lemma measure_s_type: "type_measure (s_type s) \<le> size s"
  by (cases s) (auto simp: type_measure_def split: option.splits)

lemma size_child: "c \<in> set (d_children d) \<Longrightarrow> size c < size d"
  using size_list_mem [of c "d_children d" size] by (cases d) auto

lemma size_signature: "s \<in> set (d_signatures d) \<Longrightarrow> size s < size d"
  using size_list_mem [of s "d_signatures d" size] by (cases d) auto

lemma size_parameter: "p \<in> set (s_parameters s) \<Longrightarrow> size p < size s"
  using size_list_mem [of p "s_parameters s" size] by (cases s) auto

lemma measure_child:
  "c \<in> set (d_children r) \<Longrightarrow> type_measure (d_type c) < Suc (Suc (Suc (size r)))"
  using size_child [of c r] measure_d_type [of c] by simp

lemma measure_param:
  "d_signatures r = sg # sgs \<Longrightarrow> p \<in> set (s_parameters sg)
   \<Longrightarrow> type_measure (p_type p) < Suc (Suc (Suc (size r)))"
  using size_signature [of sg r] size_parameter [of p sg] measure_p_type [of p] by simp

lemma measure_return:
  "d_signatures r = sg # sgs \<Longrightarrow> type_measure (s_type sg) < Suc (Suc (Suc (size r)))"
  using size_signature [of sg r] measure_s_type [of sg] by simp

termination formatType
  by (relation "measure (\<lambda>(m, t). type_measure t)")
     (auto simp: type_measure_Some size_list_mem measure_child measure_param measure_return)

text \<open>
  The engine's call stack holds a bounded number of nested calls, and a call that finds
  no room raises \<open>RangeError\<close> ("Maximum call stack size exceeded"). The same function
  with that bound as its first argument, the number of nested calls of \<open>formatType\<close>
  that still fit: every call takes one, and its recursive calls have one less.
\<close>

fun formatType_fuel ::
  "nat \<Rightarrow> (string \<times> string) list option \<Rightarrow> jtype option \<Rightarrow> error + string" where
  "formatType_fuel 0 m t = Inl RangeError"
| "formatType_fuel (Suc k) m None = Inr ''any''"
| "formatType_fuel (Suc k) m (Some (PlainString s)) = Inr (if s = [] then ''any'' else s)"
| "formatType_fuel (Suc k) m (Some (Intrinsic n)) = Inr n"
| "formatType_fuel (Suc k) m (Some (Reference n typeArguments)) =
     (if typeArguments \<noteq> []
      then and_then (collect (map (\<lambda>t. formatType_fuel k m (Some t)) typeArguments))
             (\<lambda>args. Inr (reference_name m n @ ''<'' @ js_join '', '' args @ ''>''))
      else Inr (reference_name m n))"
| "formatType_fuel (Suc k) m (Some (Array elementType)) =
     and_then (formatType_fuel k m (Some elementType)) (\<lambda>element. Inr (element @ ''[]''))"
| "formatType_fuel (Suc k) m (Some (Union types)) =
     and_then (collect (map (\<lambda>t. formatType_fuel k m (Some t)) types))
       (\<lambda>parts. Inr (js_join '' | '' parts))"
| "formatType_fuel (Suc k) m (Some (Intersection types)) =
     and_then (collect (map (\<lambda>t. formatType_fuel k m (Some t)) types))
       (\<lambda>parts. Inr (js_join '' & '' parts))"
| "formatType_fuel (Suc k) m (Some (Literal v)) = json_stringify v"
| "formatType_fuel (Suc k) m (Some (Tuple elements)) =
     and_then (collect (map (\<lambda>t. formatType_fuel k m (Some t)) elements))
       (\<lambda>parts. Inr (''['' @ js_join '', '' parts @ '']''))"
| "formatType_fuel (Suc k) m (Some (ReflectionT None)) = Inr ''object''"
| "formatType_fuel (Suc k) m (Some (ReflectionT (Some reflection))) =
     (case d_signatures reflection of
        sig # _ \<Rightarrow>
          and_then
            (collect
               (map (\<lambda>p. and_then (formatType_fuel k m (p_type p))
                           (\<lambda>type. Inr (p_name p @ optional_mark (p_isOptional p) @ '': ''
                                         @ type)))
                  (s_parameters sig)))
            (\<lambda>params.
               and_then (formatType_fuel k m (s_type sig))
                 (\<lambda>returnType. Inr (''('' @ js_join '', '' params @ '') => '' @ returnType)))
      | [] \<Rightarrow>
          (case d_children reflection of
             [] \<Rightarrow> Inr ''object''
           | _ # _ \<Rightarrow>
               and_then
                 (collect
                    (map (\<lambda>child. and_then (formatType_fuel k m (d_type child))
                                    (\<lambda>type. Inr (d_name child
                                                  @ optional_mark (d_isOptional child)
                                                  @ '': '' @ type)))
                       (d_children reflection)))
                 (\<lambda>props. Inr (''{ '' @ js_join ''; '' props @ '' }''))))"
| "formatType_fuel (Suc k) m (Some (Conditional checkType extendsType trueType falseType)) =
     and_then (formatType_fuel k m (Some checkType)) (\<lambda>c.
     and_then (formatType_fuel k m (Some extendsType)) (\<lambda>e.
     and_then (formatType_fuel k m (Some trueType)) (\<lambda>t.
     and_then (formatType_fuel k m (Some falseType)) (\<lambda>f.
       Inr (c @ '' extends '' @ e @ '' ? '' @ t @ '' : '' @ f)))))"
| "formatType_fuel (Suc k) m (Some (IndexedAccess objectType indexType)) =
     and_then (formatType_fuel k m (Some objectType)) (\<lambda>ob.
     and_then (formatType_fuel k m (Some indexType)) (\<lambda>ix. Inr (ob @ ''['' @ ix @ '']'')))"
| "formatType_fuel (Suc k) m (Some (Query queryName)) =
     Inr (''typeof '' @ or_default queryName ''unknown'')"
| "formatType_fuel (Suc k) m (Some (Predicate name targetType)) =
     and_then (formatType_fuel k m (Some (PlainString ''predicate'')))
       (\<lambda>typeStr. Inr (or_default name ''this'' @ '' is '' @ typeStr))"
| "formatType_fuel (Suc k) m (Some (TemplateLiteral toString)) =
     Inr (or_default toString ''string'')"
| "formatType_fuel (Suc k) m (Some (Unknown toString)) = Inr (or_default toString ''any'')"

text \<open>
  The calls of \<open>formatType\<close>. \<open>calls\<close> lists the arguments of the recursive calls
  that a call on a type makes, in order; \<open>call_depth\<close> is the number of nested calls
  that a call needs room for, itself included; \<open>bigint_free\<close> says that neither the
  type nor any type reached through these calls is a bigint literal.
\<close>

fun calls :: "jtype option \<Rightarrow> jtype option list" where
  "calls (Some (Reference n typeArguments)) = map Some typeArguments"
| "calls (Some (Array elementType)) = [Some elementType]"
| "calls (Some (Union types)) = map Some types"
| "calls (Some (Intersection types)) = map Some types"
| "calls (Some (Tuple elements)) = map Some elements"
| "calls (Some (ReflectionT (Some reflection))) =
     (case d_signatures reflection of
        sig # _ \<Rightarrow> map p_type (s_parameters sig) @ [s_type sig]
      | [] \<Rightarrow> map d_type (d_children reflection))"
| "calls (Some (Conditional checkType extendsType trueType falseType)) =
     [Some checkType, Some extendsType, Some trueType, Some falseType]"
| "calls (Some (IndexedAccess objectType indexType)) = [Some objectType, Some indexType]"
| "calls (Some (Predicate name targetType)) = [Some (PlainString ''predicate'')]"
| "calls t = []"

lemma calls_measure: "u \<in> set (calls t) \<Longrightarrow> type_measure u < type_measure t"
proof (induction t rule: calls.induct)
  case (6 reflection)
  show ?case
  proof (cases "d_signatures reflection")
    case Nil
    with 6 obtain c where "c \<in> set (d_children reflection)" "u = d_type c" by auto
    with measure_child [of c reflection] show ?thesis by (simp add: type_measure_Some)
  next
    case (Cons sg sgs)
    with 6 have "(\<exists>p \<in> set (s_parameters sg). u = p_type p) \<or> u = s_type sg" by auto
    with measure_param [OF Cons] measure_return [OF Cons] show ?thesis
      by (auto simp: type_measure_Some)
  qed
qed (auto simp: type_measure_Some size_list_mem)

fun max_list :: "nat list \<Rightarrow> nat" where
  "max_list [] = 0"
| "max_list (x # xs) = max x (max_list xs)"

function call_depth :: "jtype option \<Rightarrow> nat" where
  "call_depth t = Suc (max_list (map call_depth (calls t)))"
  by pat_completeness auto
termination
  by (relation "measure type_measure") (auto simp: calls_measure)

declare call_depth.simps [simp del]

definition is_bigint :: "jtype option \<Rightarrow> bool" where
  "is_bigint t = (case t of Some (Literal (LBigInt i)) \<Rightarrow> True | _ \<Rightarrow> False)"

function bigint_free :: "jtype option \<Rightarrow> bool" where
  "bigint_free t = (\<not> is_bigint t \<and> list_all bigint_free (calls t))"
  by pat_completeness auto
termination
  by (relation "measure type_measure") (auto simp: calls_measure)

declare bigint_free.simps [simp del]
section \<open>components.ts\<close>

text \<open>The generators of Mintlify components that the reflection renderer calls.\<close>

definition accordion :: "string \<Rightarrow> string \<Rightarrow> string" where
  "accordion title content =
     ''<Accordion title=\"'' @ title @ ''\">\<newline>'' @ content @ ''\<newline></Accordion>''"

text \<open>Each accordion's content is indented by two spaces, line by line.\<close>

definition accordionGroup :: "(string \<times> string) list \<Rightarrow> string" where
  "accordionGroup accordions =
     (let items =
        js_join ''\<newline>\<newline>''
          (map (\<lambda>(title, content).
                  accordion title
                    (js_join ''\<newline>'' (map (\<lambda>line. ''  '' @ line) (js_split LF content))))
             accordions)
      in ''<AccordionGroup>\<newline>'' @ items @ ''\<newline></AccordionGroup>'')"

definition codeGroup :: "(string \<times> string \<times> string) list \<Rightarrow> string" where
  "codeGroup codeBlocks =
     (let blocks =
        js_join ''\<newline>\<newline>''
          (map (\<lambda>(title, code, language).
                  ''```'' @ language @ '' '' @ title @ ''\<newline>'' @ code @ ''\<newline>```'')
             codeBlocks)
      in ''<CodeGroup>\<newline>'' @ blocks @ ''\<newline></CodeGroup>'')"

text \<open>The callouts and the expandable, called with their default second arguments.\<close>

definition info :: "string \<Rightarrow> string" where
  "info content = ''<Info>\<newline>'' @ content @ ''\<newline></Info>''"

definition warning :: "string \<Rightarrow> string" where
  "warning content = ''<Warning>\<newline>'' @ content @ ''\<newline></Warning>''"

definition note_callout :: "string \<Rightarrow> string" where
  "note_callout content = ''<Note>\<newline>'' @ content @ ''\<newline></Note>''"

definition expandable :: "string \<Rightarrow> string \<Rightarrow> string" where
  "expandable title content =
     ''<Expandable title=\"'' @ title @ ''\">\<newline>'' @ content @ ''\<newline></Expandable>''"

section \<open>reflection-renderer.ts\<close>

text \<open>
  \<open>MintlifyReflectionRenderer\<close> renders a declaration to MDX text. Its fields are the
  renderer's state; the rendering methods read them. A method that formats a type
  raises what \<open>formatType\<close> raises, and so does every method that calls it.
\<close>

record renderer =
  typeToUrlMap :: "(string \<times> string) list"
  currentPageUrl :: "string option"
  frontmatterDescription :: "string option"
  indexPageUrl :: string

definition formatTypeWithLinks :: "renderer \<Rightarrow> jtype option \<Rightarrow> error + string" where
  "formatTypeWithLinks this t = formatType (Some (typeToUrlMap this)) t"

text \<open>\<open>comment?.summary\<close>: the summary parts of an optional comment.\<close>

definition summary_of :: "comment option \<Rightarrow> display_part list" where
  "summary_of c = (case c of None \<Rightarrow> [] | Some cm \<Rightarrow> c_summary cm)"

definition extractCommentText :: "display_part list \<Rightarrow> string" where
  "extractCommentText content =
     trim (concat (map (\<lambda>part.
        (case part_text part of
           None \<Rightarrow> []
         | Some t \<Rightarrow> if part_kind part = Some ''code'' \<and> t \<noteq> [] then ''`'' @ t @ ''`'' else t))
        content))"

subsection \<open>Parameter location and synthesized descriptions\<close>

definition determineParameterLocation :: "string \<Rightarrow> string" where
  "determineParameterLocation name =
     (let nameLower = toLowerCase name in
      if str_includes nameLower ''id'' \<and> \<not> str_includes nameLower ''userid''
         \<and> \<not> str_includes nameLower ''accountid''
      then ''path''
      else if str_includes nameLower ''header'' \<or> nameLower = ''authorization''
              \<or> nameLower = ''auth'' \<or> nameLower = ''apikey''
      then ''header''
      else if str_includes nameLower ''query'' \<or> str_includes nameLower ''limit''
              \<or> str_includes nameLower ''offset'' \<or> str_includes nameLower ''page''
              \<or> str_includes nameLower ''sort'' \<or> str_includes nameLower ''filter''
      then ''query''
      else if str_includes nameLower ''body'' \<or> str_includes nameLower ''data''
              \<or> str_includes nameLower ''payload'' \<or> str_includes nameLower ''request''
      then ''body''
      else ''path'')"

definition generateParameterDescription :: "string \<Rightarrow> string \<Rightarrow> string" where
  "generateParameterDescription name type =
     (let nameLower = toLowerCase name in
      if str_includes nameLower ''id'' then ''Unique identifier for the resource.''
      else if str_includes nameLower ''url'' \<or> str_includes nameLower ''endpoint''
      then ''The API endpoint URL.''
      else if str_includes nameLower ''key'' \<or> str_includes nameLower ''token''
              \<or> str_includes nameLower ''auth''
      then ''Authentication credentials or API key.''
      else if str_includes nameLower ''options'' \<or> str_includes nameLower ''config''
      then ''Configuration options for the request.''
      else if str_includes nameLower ''data'' \<or> str_includes nameLower ''body''
              \<or> str_includes nameLower ''payload''
      then ''Request payload data.''
      else if str_includes nameLower ''limit'' then ''Maximum number of results to return.''
      else if str_includes nameLower ''offset'' \<or> str_includes nameLower ''skip''
      then ''Number of results to skip.''
      else if str_includes nameLower ''timeout'' then ''Request timeout in milliseconds.''
      else if type = ''string'' then ''The '' @ name @ '' value.''
      else if type = ''number'' then ''Numeric value for '' @ name @ ''.''
      else if type = ''boolean'' then ''Whether '' @ name @ '' is enabled.''
      else ''The '' @ name @ '' parameter.'')"

subsection \<open>Fields\<close>

text \<open>
  \<^verbatim>\<open>type.replace(/\[([^\]]+)\]\([^)]+\)/g, '$1')\<close> replaces every Markdown link by its
  text. A type "has links" when it contains \<open>[\<close> and \<open>](\<close>.
\<close>

definition md_link :: rx where
  "md_link =
     Seqs [Lit ''['', Group 1 (Plus True (Ch (none_of '']''))), Lit '']('',
           Plus True (Ch (none_of '')'')), Lit '')'']"

definition plain_links :: "string \<Rightarrow> string" where
  "plain_links s = replace_all md_link (\<lambda>m g. grp g 1) s"

definition has_links :: "string \<Rightarrow> bool" where
  "has_links type = (str_includes type ''['' \<and> str_includes type '']('')"

text \<open>\<open>s.split(c)[0]\<close>\<close>

definition first_piece :: "char \<Rightarrow> string \<Rightarrow> string" where
  "first_piece sep s = (case js_split sep s of [] \<Rightarrow> [] | p # _ \<Rightarrow> p)"

definition required_attr :: "bool \<Rightarrow> string" where
  "required_attr required = (if required then '' required'' else [])"

text \<open>The body of the loop of \<open>renderParameters\<close>, for one parameter.\<close>

definition renderParameter :: "renderer \<Rightarrow> parameter \<Rightarrow> error + string" where
  "renderParameter this param =
     and_then (formatTypeWithLinks this (p_type param)) (\<lambda>type.
     (let name = p_name param;
          required = \<not> p_isOptional param;
          supplied = extractCommentText (summary_of (p_comment param));
          description0 = (if supplied \<noteq> [] then supplied
                          else generateParameterDescription name type);
          description =
            (if has_links type
                \<and> \<not> str_includes (toLowerCase description0)
                      (first_piece (CHR ''<'') (toLowerCase (plain_links type)))
             then description0 @ '' Type: '' @ type @ ''.''
             else description0);
          location = determineParameterLocation name;
          locationAttr = (if location = ''path'' then ''path''
                          else if location = ''query'' then ''query''
                          else if location = ''header'' then ''header''
                          else ''body'');
          typeForAttribute = plain_links type
      in Inr (''<ParamField '' @ locationAttr @ ''=\"'' @ sanitizeAttribute name
              @ ''\" type=\"'' @ sanitizeAttribute typeForAttribute @ ''\"''
              @ required_attr required @ ''>\<newline>''
              @ description @ ''\<newline>''
              @ ''</ParamField>\<newline>\<newline>'')))"

definition renderParameters :: "renderer \<Rightarrow> parameter list \<Rightarrow> error + string" where
  "renderParameters this parameters =
     and_then (collect (map (renderParameter this) parameters))
       (\<lambda>fields. Inr (concat fields))"

definition renderReturnType :: "renderer \<Rightarrow> signature \<Rightarrow> error + string" where
  "renderReturnType this sig =
     (case s_type sig of
        None \<Rightarrow> Inr []
      | Some _ \<Rightarrow>
          and_then (formatTypeWithLinks this (s_type sig)) (\<lambda>type.
          (let returnsComment =
                 extractCommentText
                   (case s_comment sig of
                      None \<Rightarrow> []
                    | Some c \<Rightarrow>
                        (case find (\<lambda>t. tag_name t = ''@returns'') (c_blockTags c) of
                           None \<Rightarrow> []
                         | Some t \<Rightarrow> tag_content t));
               description =
                 (if returnsComment \<noteq> []
                  then returnsComment @ '' Returns '' @ type @ ''.''
                  else ''Returns '' @ type @ ''.'');
               typeForAttribute = plain_links type
           in Inr (''<ResponseField name=\"returns\" type=\"''
                   @ sanitizeAttribute typeForAttribute
                   @ ''\">\<newline>'' @ description
                   @ ''\<newline></ResponseField>\<newline>\<newline>''))))"

definition renderInterfaceProperty :: "renderer \<Rightarrow> reflection \<Rightarrow> error + string" where
  "renderInterfaceProperty this property =
     and_then (formatTypeWithLinks this (d_type property)) (\<lambda>type.
     (let name = d_name property;
          required = \<not> d_isOptional property;
          supplied = extractCommentText (summary_of (d_comment property));
          description0 = (if supplied \<noteq> [] then supplied
                          else ''The '' @ name @ '' property.'');
          typeName = plain_links type;
          description =
            (if \<not> str_includes (toLowerCase description0)
                     (first_piece (CHR ''<'') (toLowerCase typeName))
             then description0 @ '' Type: '' @ type @ ''.''
             else description0);
          typeForAttribute = plain_links type
      in Inr (''**'' @ name @ ''**\<newline>\<newline>''
              @ ''<ResponseField name=\"'' @ sanitizeAttribute name
              @ ''\" type=\"'' @ sanitizeAttribute typeForAttribute @ ''\"''
              @ required_attr required @ ''>\<newline>''
              @ description @ ''\<newline>''
              @ ''</ResponseField>\<newline>\<newline>'')))"


subsection \<open>Signatures\<close>

definition paramList_plain :: "parameter list \<Rightarrow> error + string" where
  "paramList_plain params =
     and_then
       (collect
          (map (\<lambda>p. and_then (formatType None (p_type p))
                      (\<lambda>plainType. Inr (p_name p @ optional_mark (p_isOptional p) @ '': ''
                                         @ plainType)))
             params))
       (\<lambda>parts. Inr (js_join '', '' parts))"

definition renderSignature ::
  "renderer \<Rightarrow> string \<Rightarrow> signature \<Rightarrow> bool \<Rightarrow> bool \<Rightarrow> error + string" where
  "renderSignature this name sig isConstructor useExpandable =
     (let params = s_parameters sig in
      and_then (paramList_plain params) (\<lambda>paramList.
      and_then (case s_type sig of None \<Rightarrow> Inr ''void''
                | Some _ \<Rightarrow> formatType None (s_type sig)) (\<lambda>returnType.
      and_then
        (if params \<noteq> []
         then and_then (renderParameters this params) (\<lambda>paramsContent.
                Inr (if useExpandable
                     then expandable ''Parameters'' (trim paramsContent) @ ''\<newline>\<newline>''
                     else ''#### Parameters\<newline>\<newline>'' @ paramsContent @ ''\<newline>''))
         else Inr []) (\<lambda>parametersBlock.
      and_then
        (if s_type sig \<noteq> None \<and> \<not> isConstructor
         then and_then (renderReturnType this sig) (\<lambda>returnsContent.
                Inr (if useExpandable
                     then expandable ''Returns'' (trim returnsContent) @ ''\<newline>\<newline>''
                     else ''#### Returns\<newline>\<newline>'' @ returnsContent @ ''\<newline>''))
         else Inr []) (\<lambda>returnsBlock.
      (let sigText = (if isConstructor then ''new '' @ name @ ''('' @ paramList @ '')''
                      else name @ ''('' @ paramList @ ''): '' @ returnType)
       in Inr (''`'' @ sigText @ ''`\<newline>\<newline>''
               @ (case s_comment sig of
                    None \<Rightarrow> []
                  | Some c \<Rightarrow>
                      (let summary = extractCommentText (c_summary c)
                       in if summary \<noteq> [] then summary @ ''\<newline>\<newline>'' else []))
               @ parametersBlock
               @ returnsBlock)))))))"

subsection \<open>Summary, comments and table of contents\<close>

text \<open>\<^verbatim>\<open>s.replace(/\.$/, '')\<close> removes one period at the end of the string.\<close>

definition strip_final_period :: "string \<Rightarrow> string" where
  "strip_final_period s = (if endsWith s ''.'' then butlast s else s)"

definition renderSummary :: "renderer \<Rightarrow> reflection \<Rightarrow> string" where
  "renderSummary this reflection =
     (case d_comment reflection of
        None \<Rightarrow> []
      | Some c \<Rightarrow>
          (let summary = extractCommentText (c_summary c) in
           if summary = [] then []
           else if (case frontmatterDescription this of
                      None \<Rightarrow> False
                    | Some fd \<Rightarrow>
                        fd \<noteq> []
                        \<and> strip_final_period (trim summary) = strip_final_period (trim fd))
           then []
           else summary @ ''\<newline>\<newline>''))"

text \<open>
  \<^verbatim>\<open>/```(\w+)?\n([\s\S]*?)```/g\<close> finds the fenced code blocks of an example. The
  loop over the block tags carries the content written so far and the examples found
  so far.
\<close>

definition codeBlockRegex :: rx where
  "codeBlockRegex =
     Seqs [Lit ''```'', Opt (Group 1 (Plus True (Ch is_word))), Lit [LF],
           Group 2 (Star False (Ch any_char)), Lit ''```'']"

definition capitalize :: "string \<Rightarrow> string" where
  "capitalize s = (case s of [] \<Rightarrow> [] | c # cs \<Rightarrow> upper_char c # cs)"

definition comment_tag_step ::
  "string \<times> (string \<times> string) list \<Rightarrow> comment_tag \<Rightarrow> string \<times> (string \<times> string) list" where
  "comment_tag_step acc tag =
     (case acc of (content, examples) \<Rightarrow>
        (let text = extractCommentText (tag_content tag) in
         if tag_name tag = ''@remarks''
         then (if text \<noteq> [] then (content @ info text @ ''\<newline>\<newline>'', examples) else acc)
         else if tag_name tag = ''@warning''
         then (if text \<noteq> [] then (content @ warning text @ ''\<newline>\<newline>'', examples) else acc)
         else if tag_name tag = ''@note''
         then (if text \<noteq> [] then (content @ note_callout text @ ''\<newline>\<newline>'', examples)
               else acc)
         else if tag_name tag = ''@example''
         then (if text \<noteq> []
               then (let found = examples
                           @ map (\<lambda>(m, g). (if grp g 1 = [] then ''typescript'' else grp g 1,
                                             trim (grp g 2)))
                               (match_all codeBlockRegex text)
                     in (content,
                         if found = [] \<and> trim text \<noteq> []
                         then found @ [(''typescript'', trim text)] else found))
               else acc)
         else acc))"

definition renderComments :: "comment option \<Rightarrow> string" where
  "renderComments comment =
     (case comment of
        None \<Rightarrow> []
      | Some c \<Rightarrow>
          (case foldl comment_tag_step ([], []) (c_blockTags c) of
             (content, examples) \<Rightarrow>
               (case examples of
                  [] \<Rightarrow> content
                | [(language, code)] \<Rightarrow>
                    content @ ''```'' @ language @ ''\<newline>'' @ code
                    @ ''\<newline>```\<newline>\<newline>''
                | _ # _ # _ \<Rightarrow>
                    content
                    @ codeGroup (map (\<lambda>(language, code). (capitalize language, code, language))
                                   examples)
                    @ ''\<newline>\<newline>'')))"

text \<open>The anchor of a section: lower case, each run of white space a hyphen.\<close>

definition toc_anchor :: "string \<Rightarrow> string" where
  "toc_anchor item = replace_all (Plus True Space) (\<lambda>m g. ''-'') (toLowerCase item)"

definition renderToc :: "string list \<Rightarrow> string" where
  "renderToc items =
     (if items = [] then []
      else ''<Toc>\<newline>''
           @ js_join ''\<newline>''
               (map (\<lambda>item. ''- ['' @ item @ ''](#'' @ toc_anchor item @ '')'') items)
           @ ''\<newline></Toc>\<newline>\<newline>'')"

subsection \<open>Classes\<close>

text \<open>
  \<open>renderClass\<close> writes the summary and comments, a table of contents, and then a
  constructor block, a properties block and a methods block, each only when the class
  has such members. The children are told apart by their kind: 512 a constructor, 1024
  a property, 2048 a method. The blocks are rendered in this order, and an error
  raised in one of them ends the rendering.
\<close>

definition children_of_kind :: "nat \<Rightarrow> reflection \<Rightarrow> reflection list" where
  "children_of_kind k reflection = filter (\<lambda>child. d_kind child = k) (d_children reflection)"





text \<open>Render methods - use AccordionGroup if more than 3.\<close>

definition method_accordion :: "renderer \<Rightarrow> reflection \<Rightarrow> error + string \<times> string" where
  "method_accordion this method =
     (case d_signatures method of
        [] \<Rightarrow> Inr (d_name method, [])
      | sig # _ \<Rightarrow>
          and_then
            (collect
               (map (\<lambda>p. and_then (formatTypeWithLinks this (p_type p))
                           (\<lambda>type. Inr (p_name p @ optional_mark (p_isOptional p) @ '': ''
                                         @ type)))
                  (s_parameters sig))) (\<lambda>params.
          and_then (case s_type sig of None \<Rightarrow> Inr ''void''
                    | Some _ \<Rightarrow> formatTypeWithLinks this (s_type sig)) (\<lambda>returnType.
          and_then (renderSignature this (d_name method) sig False True) (\<lambda>methodContent.
            Inr (d_name method @ ''('' @ js_join '', '' params @ ''): '' @ returnType,
                 trim methodContent)))))"

definition class_methods_block :: "renderer \<Rightarrow> reflection list \<Rightarrow> error + string" where
  "class_methods_block this methods =
     (if methods \<noteq> []
      then (if length methods > 3
            then and_then (collect (map (method_accordion this) methods))
                   (\<lambda>accordions.
                      Inr (''### Methods\<newline>\<newline>''
                           @ accordionGroup (filter (\<lambda>acc. snd acc \<noteq> []) accordions)
                           @ ''\<newline>\<newline>''))
            else and_then
                   (collect
                      (map (\<lambda>method.
                              (case d_signatures method of
                                 [] \<Rightarrow> Inr []
                               | sig # _ \<Rightarrow>
                                   renderSignature this (d_name method) sig False True))
                         methods))
                   (\<lambda>rendered.
                      Inr (''### Methods\<newline>\<newline>'' @ concat rendered @ ''\<newline>'')))
      else Inr [])"


subsection \<open>Interfaces, functions, enums and type aliases\<close>

definition renderInterface :: "renderer \<Rightarrow> reflection \<Rightarrow> error + string" where
  "renderInterface this reflection =
     (let properties = children_of_kind 1024 reflection in
      and_then
        (if properties \<noteq> []
         then (if length properties > 5
               then and_then
                      (collect
                         (map (\<lambda>prop. and_then (renderInterfaceProperty this prop)
                                        (\<lambda>propContent. Inr (d_name prop, trim propContent)))
                            properties))
                      (\<lambda>accordions.
                         Inr (renderToc [''Properties''] @ accordionGroup accordions
                              @ ''\<newline>\<newline>''))
               else and_then (collect (map (renderInterfaceProperty this) properties))
                      (\<lambda>rendered. Inr (renderToc [''Properties''] @ concat rendered)))
         else Inr [])
        (\<lambda>propertiesBlock.
           Inr (renderSummary this reflection @ renderComments (d_comment reflection)
                @ propertiesBlock)))"

definition function_tocItems :: "reflection \<Rightarrow> string list" where
  "function_tocItems reflection =
     (case d_signatures reflection of
        [] \<Rightarrow> []
      | sig # _ \<Rightarrow>
          (if s_parameters sig \<noteq> [] then [''Parameters''] else [])
          @ (if s_type sig \<noteq> None then [''Returns''] else []))"

definition renderFunction :: "renderer \<Rightarrow> reflection \<Rightarrow> error + string" where
  "renderFunction this reflection =
     and_then
       (collect (map (\<lambda>sig. renderSignature this (d_name reflection) sig False True)
                   (d_signatures reflection)))
       (\<lambda>rendered.
          Inr (renderSummary this reflection
               @ renderComments (d_comment reflection)
               @ renderToc (function_tocItems reflection)
               @ concat rendered))"

text \<open>
  An enum's members are its children of kind 16. A member's value is its default value,
  or its name when it has none (or an empty one); a member without description gets an
  em dash (U+2014, here the three bytes of its UTF-8 encoding).
\<close>

definition em_dash :: string where
  "em_dash = [CHR 0xE2, CHR 0x80, CHR 0x94]"

definition enum_member_row :: "reflection \<Rightarrow> string" where
  "enum_member_row member =
     (let name = d_name member;
          v = or_default (d_defaultValue member) name;
          supplied = extractCommentText (summary_of (d_comment member));
          description = (if supplied \<noteq> [] then supplied else em_dash)
      in ''| `'' @ name @ ''` | `'' @ v @ ''` | '' @ description @ '' |\<newline>'')"

definition renderEnum :: "renderer \<Rightarrow> reflection \<Rightarrow> string" where
  "renderEnum this reflection =
     (let members = children_of_kind 16 reflection in
      renderSummary this reflection
      @ renderComments (d_comment reflection)
      @ (if members \<noteq> []
         then renderToc [''Members'']
              @ ''### Members\<newline>\<newline>''
              @ ''| Name | Value | Description |\<newline>''
              @ ''|------|-------|-------------|\<newline>''
              @ concat (map enum_member_row members)
              @ ''\<newline>''
         else []))"

text \<open>\<^verbatim>\<open>typeStr.replace(/\{/g, '\\{').replace(/\}/g, '\\}')\<close>\<close>

definition escape_braces :: "string \<Rightarrow> string" where
  "escape_braces s =
     concat (map (\<lambda>c. if c = CHR ''{'' \<or> c = CHR ''}'' then [BSL, c] else [c]) s)"

definition renderTypeAlias :: "renderer \<Rightarrow> reflection \<Rightarrow> error + string" where
  "renderTypeAlias this reflection =
     and_then
       (case d_type reflection of
          None \<Rightarrow> Inr []
        | Some _ \<Rightarrow>
            and_then (formatTypeWithLinks this (d_type reflection)) (\<lambda>typeStr.
              Inr (if has_links typeStr
                   then ''**Type:** '' @ escape_braces typeStr @ ''\<newline>\<newline>''
                   else ''**Type:** `'' @ typeStr @ ''`\<newline>\<newline>'')))
       (\<lambda>typeBlock.
          Inr (renderSummary this reflection @ renderComments (d_comment reflection)
               @ typeBlock))"

section \<open>renderer.js: parameter sections\<close>

text \<open>
  \<open>MintlifyPageRenderer\<close> rewrites Markdown text that is already rendered. Its
  \<open>transformParameters\<close> turns the bullet list under a \<open>###### Parameters\<close> heading
  into \<open>ParamField\<close> components. It has its own classifier of parameter locations and
  its own \<open>generateParameterDescription\<close>; their names carry the prefix \<open>page_\<close> here.
  The bullet is U+2022, in UTF-8.
\<close>

definition bullet :: string where
  "bullet = [CHR 0xE2, CHR 0x80, CHR 0xA2]"

definition page_generateParameterDescription :: "string \<Rightarrow> string \<Rightarrow> string" where
  "page_generateParameterDescription name type =
     (let nameLower = toLowerCase name in
      if str_includes nameLower ''id'' then ''Unique identifier for the resource.''
      else if str_includes nameLower ''url'' \<or> str_includes nameLower ''endpoint''
      then ''The API endpoint URL.''
      else if str_includes nameLower ''key'' \<or> str_includes nameLower ''token''
              \<or> str_includes nameLower ''auth''
      then ''Authentication credentials or API key.''
      else if str_includes nameLower ''options'' \<or> str_includes nameLower ''config''
      then ''Configuration options for the request.''
      else if str_includes nameLower ''data'' \<or> str_includes nameLower ''body''
              \<or> str_includes nameLower ''payload''
      then ''Request payload data.''
      else if str_includes nameLower ''limit'' then ''Maximum number of results to return.''
      else if str_includes nameLower ''offset'' \<or> str_includes nameLower ''skip''
      then ''Number of results to skip.''
      else if str_includes nameLower ''timeout'' then ''Request timeout in milliseconds.''
      else if str_includes nameLower ''retry'' then ''Retry configuration for failed requests.''
      else if str_includes nameLower ''headers''
      then ''Custom headers to include in the request.''
      else if str_includes nameLower ''message'' \<or> str_includes nameLower ''msg''
      then ''Descriptive message or error text.''
      else if str_includes nameLower ''type'' then ''Type or category identifier.''
      else if str_includes nameLower ''status'' then ''HTTP status code.''
      else if type = ''string'' then ''The '' @ name @ '' value.''
      else if type = ''number'' then ''Numeric value for '' @ name @ ''.''
      else if type = ''boolean'' then ''Whether '' @ name @ '' is enabled.''
      else ''The '' @ name @ '' parameter.'')"

text \<open>Determine parameter location based on name and context.\<close>

definition page_parameter_location :: "string \<Rightarrow> string" where
  "page_parameter_location name =
     (let nameLower = toLowerCase name in
      if str_includes nameLower ''header'' \<or> nameLower = ''authorization''
         \<or> nameLower = ''auth''
      then ''header''
      else if str_includes nameLower ''query'' \<or> str_includes nameLower ''limit''
              \<or> str_includes nameLower ''offset'' \<or> str_includes nameLower ''page''
              \<or> str_includes nameLower ''sort''
      then ''query''
      else if str_includes nameLower ''body'' \<or> str_includes nameLower ''data''
              \<or> str_includes nameLower ''payload'' \<or> str_includes nameLower ''request''
      then ''body''
      else if str_includes nameLower ''id'' \<and> \<not> str_includes nameLower ''userid''
              \<and> \<not> str_includes nameLower ''accountid''
      then ''path''
      else ''path'')"

text \<open>Improve description to be user-focused: an empty one is generated, another gets
  a final period when it has none.\<close>

definition page_improved_description :: "string \<Rightarrow> string \<Rightarrow> string \<Rightarrow> string" where
  "page_improved_description name type description =
     (let improvedDesc = trim description in
      if improvedDesc = [] then page_generateParameterDescription name type
      else if \<not> endsWith improvedDesc ''.'' then improvedDesc @ ''.''
      else improvedDesc)"

text \<open>
  \<^verbatim>\<open>/\u2022 \*\*(.+?)\*\*: `(.+?)`\s*(.*)/\<close> reads one bullet line;
  \<^verbatim>\<open>/`(.+?)\?`/\<close> finds an optional type.
\<close>

definition paramMatch_rx :: rx where
  "paramMatch_rx =
     Seqs [Lit bullet, Lit '' **'', Group 1 (Plus False Dot), Lit ''**: `'',
           Group 2 (Plus False Dot), Lit ''`'', Star True Space,
           Group 3 (Star True Dot)]"

definition optionalMatch_rx :: rx where
  "optionalMatch_rx = Seqs [Lit ''`'', Group 1 (Plus False Dot), Lit ''?`'']"

text \<open>A parameter field: name, type, description, required, location.\<close>

type_synonym param_field = "string \<times> string \<times> string \<times> bool \<times> string"

definition page_param_of_line :: "string \<Rightarrow> param_field option" where
  "page_param_of_line line =
     (case rx_match paramMatch_rx line of
        None \<Rightarrow> None
      | Some (m, g) \<Rightarrow>
          (let name = grp g 1; type = grp g 2; description = grp g 3;
               required = (\<not> rx_test optionalMatch_rx line
                           \<and> \<not> str_includes (toLowerCase line) ''optional'')
           in Some (trim name, trim type, page_improved_description name type description,
                    required, page_parameter_location name)))"

definition page_param_field :: "param_field \<Rightarrow> string" where
  "page_param_field param =
     (case param of (name, type, description, required, location) \<Rightarrow>
        (let locationAttr = (if location = ''path'' then ''path''
                             else if location = ''query'' then ''query''
                             else if location = ''header'' then ''header''
                             else ''body'');
             cleanDesc0 = trim description;
             cleanDesc = (if endsWith cleanDesc0 ''..'' then butlast cleanDesc0 else cleanDesc0)
         in ''<ParamField '' @ locationAttr @ ''=\"'' @ name @ ''\" type=\"'' @ type @ ''\"''
            @ required_attr required @ ''>\<newline>''
            @ cleanDesc @ ''\<newline>''
            @ ''</ParamField>\<newline>\<newline>''))"

text \<open>
  \<^verbatim>\<open>/###### Parameters\n\n([\s\S]*?)(?=\n###### |\n##### |\n#### |\n### |\n## |\n# |$)/g\<close>
\<close>

definition next_heading_or_end :: rx where
  "next_heading_or_end =
     Alts [Lit ''\<newline>###### '', Lit ''\<newline>##### '', Lit ''\<newline>#### '',
           Lit ''\<newline>### '', Lit ''\<newline>## '', Lit ''\<newline># '', Eos]"

definition paramSectionPattern :: rx where
  "paramSectionPattern =
     Seqs [Lit ''###### Parameters\<newline>\<newline>'', Group 1 (Star False (Ch any_char)),
           Ahead next_heading_or_end]"

definition transformParameters :: "string \<Rightarrow> string" where
  "transformParameters content =
     replace_all paramSectionPattern
       (\<lambda>m g.
          (let paramLines = filter (\<lambda>line. trim line \<noteq> []) (js_split LF (grp g 1));
               paramFields = List.map_filter page_param_of_line paramLines
           in if paramFields \<noteq> []
              then ''###### Parameters\<newline>\<newline>'' @ concat (map page_param_field paramFields)
              else m))
       content"

section \<open>theme.ts: page URLs and the map from type names to URLs\<close>

text \<open>
  \<open>MintlifyTheme.getUrls\<close> asks the Markdown theme it extends for the pages, makes sure
  there is an index page, and, when the output strategy is \<open>members\<close> and the base
  theme produced no individual pages, adds one page for every class, interface,
  function, enum and type alias that the option \<open>membersWithOwnFile\<close> names. For each
  page added it records the declaration's name with its URL in \<open>typeToUrlMap\<close>.

  The options are read from the application; \<open>fileExtension\<close> and \<open>entryFileName\<close>
  have defaults. The project is a reflection of kind 1. A page is a URL with its model.
  The pages of the base theme are an argument of the model. The map is an association
  list in insertion order, and \<open>map_set\<close> is \<open>Map.set\<close>.
\<close>

record theme_options =
  outputFileStrategy :: string
  membersWithOwnFile :: "string list option"
  fileExtension :: "string option"
  entryFileName :: "string option"
  flattenOutputFiles :: bool

fun map_set :: "string \<Rightarrow> string \<Rightarrow> (string \<times> string) list \<Rightarrow> (string \<times> string) list" where
  "map_set k v [] = [(k, v)]"
| "map_set k v ((k', v') # m) = (if k' = k then (k, v) # m else (k', v') # map_set k v m)"

definition kind_folder :: "nat \<Rightarrow> string" where
  "kind_folder k =
     (if k = 128 then ''classes''
      else if k = 256 then ''interfaces''
      else if k = 64 then ''functions''
      else if k = 8 then ''enums''
      else if k = 2097152 then ''type-aliases''
      else ''modules'')"

definition getUrlForReflection :: "theme_options \<Rightarrow> reflection \<Rightarrow> string" where
  "getUrlForReflection opts reflection =
     (let folder = kind_folder (d_kind reflection);
          fileName = (if flattenOutputFiles opts then d_name reflection
                      else folder @ ''/'' @ d_name reflection)
      in fileName @ or_default (fileExtension opts) ''.mdx'')"

definition own_file :: "string list option \<Rightarrow> string \<Rightarrow> bool" where
  "own_file members k = (case members of None \<Rightarrow> False | Some ms \<Rightarrow> k \<in> set ms)"

definition has_own_file :: "string list option \<Rightarrow> reflection \<Rightarrow> bool" where
  "has_own_file members reflection =
     ((d_kind reflection = 128 \<and> own_file members ''Class'')
      \<or> (d_kind reflection = 256 \<and> own_file members ''Interface'')
      \<or> (d_kind reflection = 64 \<and> own_file members ''Function'')
      \<or> (d_kind reflection = 8 \<and> own_file members ''Enum'')
      \<or> (d_kind reflection = 2097152 \<and> own_file members ''TypeAlias''))"

text \<open>
  \<open>visitReflection\<close> pushes the reflection when it gets its own file and then visits the
  children; the result is what the visit appends to \<open>reflectionsToDocument\<close>.
\<close>

function visitReflection :: "string list option \<Rightarrow> reflection \<Rightarrow> reflection list" where
  "visitReflection members reflection =
     (if has_own_file members reflection then [reflection] else [])
     @ concat (map (visitReflection members) (d_children reflection))"
  by pat_completeness auto
termination
  by (relation "measure (\<lambda>(members, r). size r)") (auto simp: size_child)

declare visitReflection.simps [simp del]

definition reflectionsToDocument :: "theme_options \<Rightarrow> reflection \<Rightarrow> reflection list" where
  "reflectionsToDocument opts project =
     concat (map (visitReflection (membersWithOwnFile opts)) (d_children project))"

definition is_index_url :: "string \<Rightarrow> string \<Rightarrow> bool" where
  "is_index_url indexUrl url =
     (url = indexUrl \<or> url = ''index.mdx'' \<or> url = ''index.md'' \<or> url = ''README.md''
      \<or> url = ''README.mdx'' \<or> startsWith url ''index.'')"

definition hasIndividualPages :: "(string \<times> reflection) list \<Rightarrow> bool" where
  "hasIndividualPages urls =
     list_ex (\<lambda>(url, model).
        url \<noteq> ''index.mdx''
        \<and> (str_includes url ''classes/'' \<or> str_includes url ''interfaces/''
           \<or> str_includes url ''functions/'' \<or> str_includes url ''enums/''))
       urls"

text \<open>One step of the loop that adds the pages and builds the map.\<close>

definition add_page ::
  "theme_options \<Rightarrow> (string \<times> reflection) list \<times> (string \<times> string) list \<Rightarrow> reflection
   \<Rightarrow> (string \<times> reflection) list \<times> (string \<times> string) list" where
  "add_page opts acc reflection =
     (case acc of (urls, urlMap) \<Rightarrow>
        (let url = getUrlForReflection opts reflection;
             cleanUrl = strip_mdx url;
             urlWithApi = (if startsWith cleanUrl ''api/'' then cleanUrl else ''api/'' @ cleanUrl)
         in (urls @ [(url, reflection)], map_set (d_name reflection) urlWithApi urlMap)))"

definition getUrls ::
  "theme_options \<Rightarrow> (string \<times> reflection) list \<Rightarrow> reflection \<Rightarrow> (string \<times> string) list
   \<Rightarrow> (string \<times> reflection) list \<times> (string \<times> string) list" where
  "getUrls opts parentUrls project urlMap =
     (let indexUrl = or_default (entryFileName opts) ''index''
                     @ or_default (fileExtension opts) ''.mdx'';
          hasIndex = list_ex (\<lambda>(url, model). is_index_url indexUrl url \<or> d_kind model = 1)
                       parentUrls;
          urls = (if \<not> hasIndex then (indexUrl, project) # parentUrls else parentUrls)
      in if outputFileStrategy opts = ''members'' \<and> \<not> hasIndividualPages urls
         then (case foldl (add_page opts) (urls, urlMap)
                       (reflectionsToDocument opts project) of
                 (urls', urlMap') \<Rightarrow>
                   (if \<not> list_ex (\<lambda>(url, model). is_index_url indexUrl url) urls'
                    then (indexUrl, project) # urls' else urls',
                    urlMap'))
         else (urls, urlMap))"

definition recommended_options :: theme_options where
  "recommended_options =
     \<lparr>outputFileStrategy = ''members'',
      membersWithOwnFile = Some [''Class'', ''Interface'', ''Function'', ''Enum'', ''TypeAlias''],
      fileExtension = None, entryFileName = None, flattenOutputFiles = False\<rparr>"


definition project_Foo_Bar :: reflection where
  "project_Foo_Bar =
     Declaration ''project'' 1 None False None None []
       [Declaration ''Foo'' 128 None False None None [] [],
        Declaration ''Bar'' 256 None False None None [] []]"

section \<open>theme.ts: links on the index page and heading levels\<close>

text \<open>
  \<open>addTypeLinksToIndexPage\<close> turns mentions of the known type names into links. The
  names are taken longest first (a stable sort of the keys by length, descending). For
  each name the text is first processed line by line, with a flag that is toggled at
  every line starting (after trimming) with three backticks, and lines inside such a
  fence are left alone; then a fourth pattern, for types in parameter lists, is applied
  to the whole text. The expressions are built with \<open>new RegExp\<close> from the name, which
  stands for itself in them (as a name made of word characters does).

  \<^verbatim>\<open>/\[[^\]]+\]\([^)]+\)\s*`\([^`]+\)/\<close> recognises a function signature line.
\<close>

definition signature_line_rx :: rx where
  "signature_line_rx =
     Seqs [Lit ''['', Plus True (Ch (none_of '']'')), Lit '']('',
           Plus True (Ch (none_of '')'')), Lit '')'', Star True Space,
           Lit ''`('', Plus True (Ch (none_of ''`'')), Lit '')'']"

text \<open>\<^verbatim>\<open>`([^`]*?<)(TypeName)(>[^`]*?)`\<close> with the \<open>g\<close> flag.\<close>

definition genericInCodePattern :: "string \<Rightarrow> rx" where
  "genericInCodePattern typeName =
     Seqs [Lit ''`'', Group 1 (Seq (Star False (Ch (none_of ''`''))) (Lit ''<'')),
           Group 2 (Lit typeName),
           Group 3 (Seq (Lit ''>'') (Star False (Ch (none_of ''`'')))), Lit ''`'']"

text \<open>\<^verbatim>\<open>(^|\s)`(TypeName)`(\s|$|[.,;:)>])\<close> with the \<open>g\<close> flag.\<close>

definition standaloneTypePattern :: "string \<Rightarrow> rx" where
  "standaloneTypePattern typeName =
     Seqs [Group 1 (Alt Bos Space), Lit ''`'', Group 2 (Lit typeName), Lit ''`'',
           Group 3 (Alts [Space, Eos, Ch (one_of ''.,;:)>'')])]"

text \<open>\<^verbatim>\<open>(\*\*\w+\*\*|\w+\??): `(TypeName)`\<close> with the \<open>g\<close> flag.\<close>

definition paramTypePattern :: "string \<Rightarrow> rx" where
  "paramTypePattern typeName =
     Seqs [Group 1 (Alt (Seqs [Lit ''**'', Plus True (Ch is_word), Lit ''**''])
                        (Seq (Plus True (Ch is_word)) (Opt (Lit ''?'')))),
           Lit '': `'', Group 2 (Lit typeName), Lit ''`'']"

definition replace_char :: "char \<Rightarrow> string \<Rightarrow> string \<Rightarrow> string" where
  "replace_char c rep s = concat (map (\<lambda>d. if d = c then rep else [d]) s)"

text \<open>What the callback of \<open>lines.map\<close> does with one line outside a fence.\<close>

definition link_line :: "string \<Rightarrow> string \<Rightarrow> string \<Rightarrow> string" where
  "link_line typeName absoluteUrl line =
     (if rx_test signature_line_rx line then line
      else
        (let line1 =
               replace_all (genericInCodePattern typeName)
                 (\<lambda>m g. replace_char (CHR ''<'') ''&lt;'' (grp g 1)
                        @ ''['' @ grp g 2 @ '']('' @ absoluteUrl @ '')''
                        @ replace_char (CHR ''>'') ''&gt;'' (grp g 3))
                 line
         in replace_all (standaloneTypePattern typeName)
              (\<lambda>m g. grp g 1 @ ''['' @ grp g 2 @ '']('' @ absoluteUrl @ '')'' @ grp g 3)
              line1))"

text \<open>The lines of the text in order, with the flag \<open>inCodeBlock\<close>.\<close>

fun link_lines :: "string \<Rightarrow> string \<Rightarrow> bool \<Rightarrow> string list \<Rightarrow> string list" where
  "link_lines typeName absoluteUrl inCodeBlock [] = []"
| "link_lines typeName absoluteUrl inCodeBlock (line # rest) =
     (if startsWith (trim line) ''```''
      then line # link_lines typeName absoluteUrl (\<not> inCodeBlock) rest
      else if inCodeBlock then line # link_lines typeName absoluteUrl inCodeBlock rest
      else link_line typeName absoluteUrl line
           # link_lines typeName absoluteUrl inCodeBlock rest)"

text \<open>\<open>s.substring(0, s.indexOf(m))\<close>, for a text \<open>m\<close> that occurs in \<open>s\<close>.\<close>

definition before_first :: "string \<Rightarrow> string \<Rightarrow> string" where
  "before_first s m = (case indexOf s m of None \<Rightarrow> [] | Some i \<Rightarrow> take i s)"

text \<open>The body of the loop over the type names.\<close>

definition link_type_name :: "(string \<times> string) list \<Rightarrow> string \<Rightarrow> string \<Rightarrow> string" where
  "link_type_name urlMap result typeName =
     (let url = (case map_of urlMap typeName of None \<Rightarrow> [] | Some u \<Rightarrow> u);
          cleanUrl = strip_mdx url;
          urlWithApi = (if startsWith cleanUrl ''api/'' then cleanUrl else ''api/'' @ cleanUrl);
          absoluteUrl = ''/'' @ urlWithApi;
          result1 = js_join ''\<newline>''
                      (link_lines typeName absoluteUrl False (js_split LF result))
      in replace_all (paramTypePattern typeName)
           (\<lambda>m g. if str_includes (before_first result1 m) (''['' @ grp g 2 @ '']'')
                  then m
                  else grp g 1 @ '': [`'' @ grp g 2 @ ''`]('' @ absoluteUrl @ '')'')
           result1)"

definition addTypeLinksToIndexPage :: "(string \<times> string) list \<Rightarrow> string \<Rightarrow> string" where
  "addTypeLinksToIndexPage urlMap content =
     (if urlMap = [] then content
      else
        (let typeNames = sort_key (\<lambda>name. - int (length name)) (map fst urlMap)
         in foldl (link_type_name urlMap) content typeNames))"

text \<open>
  \<open>flattenHeadings\<close> replaces \<^verbatim>\<open>/^##### (.+)$/gm\<close> and then
  \<^verbatim>\<open>/^###### (.+)$/gm\<close> by \<^verbatim>\<open>**$1**\<close>.
\<close>

definition heading_rx :: "string \<Rightarrow> rx" where
  "heading_rx hashes = Seqs [Bol, Lit (hashes @ '' ''), Group 1 (Plus True Dot), Eol]"

definition flattenHeadings :: "string \<Rightarrow> string" where
  "flattenHeadings content =
     replace_all (heading_rx ''######'') (\<lambda>m g. ''**'' @ grp g 1 @ ''**'')
       (replace_all (heading_rx ''#####'') (\<lambda>m g. ''**'' @ grp g 1 @ ''**'') content)"
section \<open>renderer.js: beautifyStructure\<close>

subsection \<open>The tag stack\<close>

text \<open>
  The first stage of \<open>beautifyStructure\<close> scans the lines with a stack of the names of
  the components that are open. \<^verbatim>\<open>/<([A-Z]\w+)([^>]*?)(?:\s*\/>|>)/\<close> finds an opening
  tag on a line and \<^verbatim>\<open>/<\/([A-Z]\w+)>/\<close> a closing tag; a line with an opening tag
  is never looked at for a closing tag.
\<close>

definition tag_name_rx :: rx where
  "tag_name_rx = Seq (Ch is_upper) (Plus True (Ch is_word))"

definition openTag_rx :: rx where
  "openTag_rx =
     Seqs [Lit ''<'', Group 1 tag_name_rx, Group 2 (Star False (Ch (none_of ''>''))),
           Alt (Seq (Star True Space) (Lit ''/>'')) (Lit ''>'')]"

definition closeTag_rx :: rx where
  "closeTag_rx = Seqs [Lit ''</'', Group 1 tag_name_rx, Lit ''>'']"

definition openTagMatch :: "string \<Rightarrow> string option" where
  "openTagMatch line = map_option (\<lambda>(m, g). grp g 1) (rx_match openTag_rx line)"

definition closeTagMatch :: "string \<Rightarrow> string option" where
  "closeTagMatch line = map_option (\<lambda>(m, g). grp g 1) (rx_match closeTag_rx line)"

text \<open>
  The stack is a list with its top first (the source's array has its top last).
  \<open>close_tag\<close> is what a closing tag found in the stack does to it: the source pops
  when the top is the tag, and otherwise cuts the array at the last index of the tag,
  which removes the tag and all that was opened after it; both leave what lies below
  the topmost occurrence of the tag.
\<close>

definition close_tag :: "string \<Rightarrow> string list \<Rightarrow> string list" where
  "close_tag tagName tagStack = tl (dropWhile (\<lambda>t. t \<noteq> tagName) tagStack)"

fun balance_tags :: "string list \<Rightarrow> string list \<Rightarrow> string list" where
  "balance_tags tagStack [] = []"
| "balance_tags tagStack (line # rest) =
     (case openTagMatch line of
        Some tagName \<Rightarrow>
          line # balance_tags (if str_includes line ''/>'' then tagStack
                               else tagName # tagStack) rest
      | None \<Rightarrow>
          (case closeTagMatch line of
             Some tagName \<Rightarrow>
               (if (case tagStack of [] \<Rightarrow> False | lastOpenTag # _ \<Rightarrow> lastOpenTag = tagName)
                then line # balance_tags (tl tagStack) rest
                else if tagName \<in> set tagStack
                then line # balance_tags (close_tag tagName tagStack) rest
                else if tagName = ''CodeGroup'' then line # balance_tags tagStack rest
                else balance_tags tagStack rest)
           | None \<Rightarrow> line # balance_tags tagStack rest))"

definition balanceTagLines :: "string \<Rightarrow> string" where
  "balanceTagLines content = js_join ''\<newline>'' (balance_tags [] (js_split LF content))"
subsection \<open>The cleanups\<close>

text \<open>
  After the tag stage \<open>beautifyStructure\<close> applies a chain of replacements, each to the
  result of the one before. They are grouped here as the comments of the source group
  them, each expression in the order of the source and quoted above its transcription.
\<close>

definition spaces :: rx where "spaces = Star True Space"
definition word1 :: rx where "word1 = Plus True (Ch is_word)"
definition hashes1 :: rx where "hashes1 = Plus True (Lit ''#'')"
definition closing_tag :: rx where "closing_tag = Seqs [Lit ''</'', tag_name_rx, Lit ''>'']"
definition NL :: rx where "NL = Lit [LF]"

text \<open>
  Fix broken return types:
  \<^verbatim>\<open>/`Promise\s*\n\s*<(\w+)>\s*\n\s*`/g\<close> to \<^verbatim>\<open>`Promise<$1>`\<close>,
  \<^verbatim>\<open>/`([A-Z]\w+)\s*\n\s*<(\w+)>\s*\n\s*`/g\<close> to \<^verbatim>\<open>`$1<$2>`\<close>.
\<close>

definition fix_broken_return_types :: "string \<Rightarrow> string" where
  "fix_broken_return_types content =
     replace_all
       (Seqs [Lit ''`'', Group 1 tag_name_rx, spaces, NL, spaces, Lit ''<'', Group 2 word1,
              Lit ''>'', spaces, NL, spaces, Lit ''`''])
       (\<lambda>m g. ''`'' @ grp g 1 @ ''<'' @ grp g 2 @ ''>`'')
       (replace_all
          (Seqs [Lit ''`Promise'', spaces, NL, spaces, Lit ''<'', Group 1 word1, Lit ''>'',
                 spaces, NL, spaces, Lit ''`''])
          (\<lambda>m g. ''`Promise<'' @ grp g 1 @ ''>`'')
          content)"

text \<open>
  Remove excessive blank lines: \<^verbatim>\<open>/\n{4,}/g\<close> to three line feeds.
  Clean up spacing around components:
  \<^verbatim>\<open>/\n\n\n(<[A-Z]\w+[^>]*>)/g\<close> to \<^verbatim>\<open>\n\n$1\<close>,
  \<^verbatim>\<open>/(<\/[A-Z]\w+>)\n\n\n/g\<close> to \<^verbatim>\<open>$1\n\n\<close>.
  Ensure proper spacing after components:
  \<^verbatim>\<open>/(<\/[A-Z]\w+>)(\n)([^\n])/g\<close> to \<^verbatim>\<open>$1\n\n$3\<close>.
  Remove empty sections: \<^verbatim>\<open>/### \w+\n\n\n/g\<close>.
  Clean up trailing whitespace: \<^verbatim>\<open>/[ \t]+$/gm\<close>.
\<close>

definition cleanup_spacing :: "string \<Rightarrow> string" where
  "cleanup_spacing content =
     (let c1 = replace_all (AtLeast 4 NL) (\<lambda>m g. ''\<newline>\<newline>\<newline>'') content;
          c2 = replace_all
                 (Seqs [Lit ''\<newline>\<newline>\<newline>'',
                        Group 1 (Seqs [Lit ''<'', tag_name_rx, Star True (Ch (none_of ''>'')),
                                       Lit ''>''])])
                 (\<lambda>m g. ''\<newline>\<newline>'' @ grp g 1) c1;
          c3 = replace_all (Seqs [Group 1 closing_tag, Lit ''\<newline>\<newline>\<newline>''])
                 (\<lambda>m g. grp g 1 @ ''\<newline>\<newline>'') c2;
          c4 = replace_all (Seqs [Group 1 closing_tag, Group 2 NL, Group 3 (Ch (none_of [LF]))])
                 (\<lambda>m g. grp g 1 @ ''\<newline>\<newline>'' @ grp g 3) c3;
          c5 = replace_all (Seqs [Lit ''### '', word1, Lit ''\<newline>\<newline>\<newline>''])
                 (\<lambda>m g. []) c4
      in replace_all (Seqs [Plus True (Ch (one_of [CHR '' '', CHR 0x09])), Eol]) (\<lambda>m g. []) c5)"

text \<open>
  Remove duplicate Returns sections:
  \<^verbatim>\<open>/###### Returns\n\n`(.+?)`\n\n(.+?)\n\n###### Returns\n\n`(.+?)`/gs\<close>.
  Clean up empty ParamField/ResponseField:
  \<^verbatim>\<open>/<ParamField[^>]*>\s*<\/ParamField>/g\<close>,
  \<^verbatim>\<open>/<ResponseField[^>]*>\s*<\/ResponseField>/g\<close>.
  Remove standalone "Type:" lines:
  \<^verbatim>\<open>/\*\*Type:\*\* `(.+?)`\n\n(?=<ResponseField)/g\<close>.
  Clean up duplicate type information:
  \<^verbatim>\<open>/(<ResponseField[^>]*type="([^"]+)"[^>]*>)\n\n\*\*Type:\*\* `\2`\n\n/g\<close> to
  \<^verbatim>\<open>$1\n\<close>.
\<close>

definition open_field :: "string \<Rightarrow> rx" where
  "open_field name = Seqs [Lit (''<'' @ name), Star True (Ch (none_of ''>'')), Lit ''>'']"

definition cleanup_fields :: "string \<Rightarrow> string" where
  "cleanup_fields content =
     (let c1 = replace_all
                 (Seqs [Lit ''###### Returns\<newline>\<newline>`'', Group 1 (Plus False (Ch any_char)),
                        Lit ''`\<newline>\<newline>'', Group 2 (Plus False (Ch any_char)),
                        Lit ''\<newline>\<newline>###### Returns\<newline>\<newline>`'',
                        Group 3 (Plus False (Ch any_char)), Lit ''`''])
                 (\<lambda>m g. ''###### Returns\<newline>\<newline>`'' @ grp g 1 @ ''`\<newline>\<newline>''
                        @ grp g 2 @ ''\<newline>\<newline>'')
                 content;
          c2 = replace_all (Seqs [open_field ''ParamField'', spaces, Lit ''</ParamField>''])
                 (\<lambda>m g. []) c1;
          c3 = replace_all (Seqs [open_field ''ResponseField'', spaces, Lit ''</ResponseField>''])
                 (\<lambda>m g. []) c2;
          c4 = replace_all
                 (Seqs [Lit ''**Type:** `'', Group 1 (Plus False Dot),
                        Lit ''`\<newline>\<newline>'', Ahead (Lit ''<ResponseField'')])
                 (\<lambda>m g. []) c3
      in replace_all
           (Seqs [Group 1 (Seqs [Lit ''<ResponseField'', Star True (Ch (none_of ''>'')),
                                 Lit ''type=\"'', Group 2 (Plus True (Ch (none_of [DQ]))),
                                 Lit [DQ], Star True (Ch (none_of ''>'')), Lit ''>'']),
                  Lit ''\<newline>\<newline>**Type:** `'', Backref 2, Lit ''`\<newline>\<newline>''])
           (\<lambda>m g. grp g 1 @ ''\<newline>'') c4)"

text \<open>
  Remove trailing "#." or "#" artifacts:
  \<^verbatim>\<open>/#\./g\<close>, \<^verbatim>\<open>/^#\.\n\n/gm\<close>, \<^verbatim>\<open>/^#\.$/gm\<close>,
  \<^verbatim>\<open>/\n#\.\n\n/g\<close> to two line feeds, \<^verbatim>\<open>/\n#\.$/gm\<close>,
  \<^verbatim>\<open>/\n#\.\n/g\<close> to one line feed; the lines that are \<open>#.\<close> after trimming are
  filtered out; \<^verbatim>\<open>/^#+\n\n/gm\<close>, \<^verbatim>\<open>/^#+$/gm\<close>,
  \<^verbatim>\<open>/\n#+\n\n/g\<close> to two line feeds, \<^verbatim>\<open>/\n#+$/gm\<close>;
  \<^verbatim>\<open>/([^\n\s])##+\n\n/g\<close> and \<^verbatim>\<open>/([^\n\s])#\n\n/g\<close> to \<^verbatim>\<open>$1.\n\n\<close>.
\<close>

definition not_space :: rx where
  "not_space = Seq (NotAhead Space) (Ch any_char)"

definition cleanup_hash_artifacts :: "string \<Rightarrow> string" where
  "cleanup_hash_artifacts content =
     (let c1 = replace_all (Lit ''#.'') (\<lambda>m g. []) content;
          c2 = replace_all (Seqs [Bol, Lit ''#.\<newline>\<newline>'']) (\<lambda>m g. []) c1;
          c3 = replace_all (Seqs [Bol, Lit ''#.'', Eol]) (\<lambda>m g. []) c2;
          c4 = replace_all (Lit ''\<newline>#.\<newline>\<newline>'') (\<lambda>m g. ''\<newline>\<newline>'') c3;
          c5 = replace_all (Seqs [Lit ''\<newline>#.'', Eol]) (\<lambda>m g. []) c4;
          c6 = replace_all (Lit ''\<newline>#.\<newline>'') (\<lambda>m g. ''\<newline>'') c5;
          c7 = js_join ''\<newline>'' (filter (\<lambda>line. trim line \<noteq> ''#.'') (js_split LF c6));
          c8 = replace_all (Seqs [Bol, hashes1, Lit ''\<newline>\<newline>'']) (\<lambda>m g. []) c7;
          c9 = replace_all (Seqs [Bol, hashes1, Eol]) (\<lambda>m g. []) c8;
          c10 = replace_all (Seqs [NL, hashes1, Lit ''\<newline>\<newline>''])
                  (\<lambda>m g. ''\<newline>\<newline>'') c9;
          c11 = replace_all (Seqs [NL, hashes1, Eol]) (\<lambda>m g. []) c10;
          c12 = replace_all (Seqs [Group 1 not_space, Lit ''#'', hashes1,
                                   Lit ''\<newline>\<newline>''])
                  (\<lambda>m g. grp g 1 @ ''.\<newline>\<newline>'') c11
      in replace_all (Seqs [Group 1 not_space, Lit ''#\<newline>\<newline>''])
           (\<lambda>m g. grp g 1 @ ''.\<newline>\<newline>'') c12)"

text \<open>
  Remove trailing periods after code blocks, closing tags and links:
  \<^verbatim>\<open>/```\n\n\./g\<close>, \<^verbatim>\<open>/```\.\n/g\<close>,
  \<^verbatim>\<open>/(<\/[A-Z]\w+>)\.\n\n/g\<close>, \<^verbatim>\<open>/(<\/[A-Z]\w+>)\.\n/g\<close>,
  \<^verbatim>\<open>/(\[`[^\]]+`\]\([^)]+\))\.\n\n/g\<close>, \<^verbatim>\<open>/(\[`[^\]]+`\]\([^)]+\))\.\n/g\<close>.
  Ensure CodeGroup has proper spacing:
  \<^verbatim>\<open>/([^\n])\n(<CodeGroup>)/g\<close>, \<^verbatim>\<open>/(<\/CodeGroup>)\n([^\n])/g\<close>.
\<close>

definition code_link :: rx where
  "code_link =
     Seqs [Lit ''[`'', Plus True (Ch (none_of '']'')), Lit ''`]('',
           Plus True (Ch (none_of '')'')), Lit '')'']"

definition cleanup_periods :: "string \<Rightarrow> string" where
  "cleanup_periods content =
     (let c1 = replace_all (Lit ''```\<newline>\<newline>.'') (\<lambda>m g. ''```\<newline>\<newline>'') content;
          c2 = replace_all (Lit ''```.\<newline>'') (\<lambda>m g. ''```\<newline>'') c1;
          c3 = replace_all (Seqs [Group 1 closing_tag, Lit ''.\<newline>\<newline>''])
                 (\<lambda>m g. grp g 1 @ ''\<newline>\<newline>'') c2;
          c4 = replace_all (Seqs [Group 1 closing_tag, Lit ''.\<newline>''])
                 (\<lambda>m g. grp g 1 @ ''\<newline>'') c3;
          c5 = replace_all (Seqs [Group 1 code_link, Lit ''.\<newline>\<newline>''])
                 (\<lambda>m g. grp g 1 @ ''\<newline>\<newline>'') c4;
          c6 = replace_all (Seqs [Group 1 code_link, Lit ''.\<newline>''])
                 (\<lambda>m g. grp g 1 @ ''\<newline>'') c5;
          c7 = replace_all (Seqs [Group 1 (Ch (none_of [LF])), NL, Group 2 (Lit ''<CodeGroup>'')])
                 (\<lambda>m g. grp g 1 @ ''\<newline>\<newline>'' @ grp g 2) c6
      in replace_all (Seqs [Group 1 (Lit ''</CodeGroup>''), NL, Group 2 (Ch (none_of [LF]))])
           (\<lambda>m g. grp g 1 @ ''\<newline>\<newline>'' @ grp g 2) c7)"

text \<open>
  Fix functions to use ParamField instead of bullet points. \<open>transformFunctionParameters\<close>
  rewrites every section
  \<^verbatim>\<open>/#### Parameters\n\n([\s\S]*?)(?=\n#### |\n### |\n## |\n# |$)/g\<close> that contains a
  bullet. A bullet line is read with
  \<^verbatim>\<open>/\u2022 \*\*(\w+[?]?)\*\*: (?:`(.+?)`|\[([^\]]+)\]\([^)]+\))/\<close>; the line after it is
  its description unless it is a bullet line or a \<open>ParamField\<close>. A \<open>ParamField\<close>
  already present is skipped up to the line with its closing tag, and the fields found
  by \<^verbatim>\<open>/<ParamField[\s\S]*?<\/ParamField>/g\<close> are written first.
\<close>

definition function_paramMatch_rx :: rx where
  "function_paramMatch_rx =
     Seqs [Lit bullet, Lit '' **'', Group 1 (Seq word1 (Opt (Lit ''?''))), Lit ''**: '',
           Alt (Seqs [Lit ''`'', Group 2 (Plus False Dot), Lit ''`''])
               (Seqs [Lit ''['', Group 3 (Plus True (Ch (none_of '']''))), Lit '']('',
                      Plus True (Ch (none_of '')'')), Lit '')''])]"

definition strip_backticks :: "string \<Rightarrow> string" where
  "strip_backticks s =
     replace_all (Alt (Seq Bos (Lit ''`'')) (Seq (Lit ''`'') Eos)) (\<lambda>m g. []) s"

text \<open>A field found on a bullet line, from the groups of the match and the description
  line: name, type, description, required.\<close>

definition function_param_field :: "caps \<Rightarrow> string \<Rightarrow> string \<times> string \<times> string \<times> bool" where
  "function_param_field g description0 =
     (let name = grp g 1;
          isOptional = str_includes name ''?'';
          cleanName = replace_first (Lit ''?'') (\<lambda>m g. []) name;
          actualType0 = trim (if grp g 2 \<noteq> [] then grp g 2
                              else if grp g 3 \<noteq> [] then grp g 3 else ''any'');
          actualType = trim (strip_backticks actualType0);
          description =
            (if description0 = [] then page_generateParameterDescription cleanName actualType
             else if \<not> endsWith description0 ''.'' then description0 @ ''.''
             else description0)
      in (cleanName, trim actualType, description, \<not> isOptional))"

text \<open>
  The loop over the lines of the section, by the lines left. A line with a
  \<open>ParamField\<close> skips to the line after the next one with the closing tag, itself
  included in the search.
\<close>

function function_param_lines :: "string list \<Rightarrow> (string \<times> string \<times> string \<times> bool) list" where
  "function_param_lines [] = []"
| "function_param_lines (line # rest) =
     (if str_includes line ''<ParamField''
      then function_param_lines
             (tl (dropWhile (\<lambda>l. \<not> str_includes l ''</ParamField>'') (line # rest)))
      else (case rx_match function_paramMatch_rx line of
              None \<Rightarrow> function_param_lines rest
            | Some (m, g) \<Rightarrow>
                (case rest of
                   [] \<Rightarrow> [function_param_field g []]
                 | next_line # rest' \<Rightarrow>
                     (if \<not> startsWith next_line bullet
                         \<and> \<not> str_includes next_line ''<ParamField''
                      then function_param_field g (trim next_line) # function_param_lines rest'
                      else function_param_field g [] # function_param_lines rest))))"
  by pat_completeness auto
termination
proof (relation "measure length", goal_cases)
  case 1
  show ?case by simp
next
  case (2 line rest)
  have "length (dropWhile (\<lambda>l. \<not> str_includes l ''</ParamField>'') (line # rest))
        \<le> length (line # rest)"
    by (rule length_dropWhile_le)
  then show ?case by simp
qed simp_all

definition functionParamPattern :: rx where
  "functionParamPattern =
     Seqs [Lit ''#### Parameters\<newline>\<newline>'', Group 1 (Star False (Ch any_char)),
           Ahead (Alts [Lit ''\<newline>#### '', Lit ''\<newline>### '', Lit ''\<newline>## '',
                        Lit ''\<newline># '', Eos])]"

definition transformFunctionParameters :: "string \<Rightarrow> string" where
  "transformFunctionParameters content =
     replace_all functionParamPattern
       (\<lambda>m g.
          (let paramsSection = grp g 1 in
           if \<not> str_includes paramsSection bullet then m
           else
             (let paramLines = filter (\<lambda>line. trim line \<noteq> []) (js_split LF paramsSection);
                  paramFields = function_param_lines paramLines;
                  existingParamFields =
                    map fst (match_all (Seqs [Lit ''<ParamField'', Star False (Ch any_char),
                                              Lit ''</ParamField>''])
                               paramsSection)
              in if paramFields \<noteq> []
                 then ''#### Parameters\<newline>\<newline>''
                      @ concat (map (\<lambda>existing. existing @ ''\<newline>\<newline>'') existingParamFields)
                      @ concat (map (\<lambda>(name, type, description, required).
                                  ''<ParamField path=\"'' @ name @ ''\" type=\"'' @ type @ ''\"''
                                  @ required_attr required @ ''>\<newline>''
                                  @ description @ ''\<newline>''
                                  @ ''</ParamField>\<newline>\<newline>'')
                                paramFields)
                 else m)))
       content"

text \<open>
  Final cleanup: fix class properties that still have ResponseField. With \<open>NAME\<close> for
  \<open>statusCode\<close> and then for \<open>type\<close>:
  \<^verbatim>\<open>/(##### NAME\n\n)<ResponseField name="NAME" type="([^"]+)"([^>]*)>\n(.+?)\n<\/ResponseField>\n\n/g\<close>
\<close>

definition with_period :: "string \<Rightarrow> string" where
  "with_period desc = (if \<not> endsWith desc ''.'' then desc @ ''.'' else desc)"

definition fix_class_property :: "string \<Rightarrow> string \<Rightarrow> string" where
  "fix_class_property name content =
     replace_all
       (Seqs [Group 1 (Lit (''##### '' @ name @ ''\<newline>\<newline>'')),
              Lit (''<ResponseField name=\"'' @ name @ ''\" type=\"''),
              Group 2 (Plus True (Ch (none_of [DQ]))), Lit [DQ],
              Group 3 (Star True (Ch (none_of ''>''))), Lit ''>\<newline>'',
              Group 4 (Plus False Dot), Lit ''\<newline></ResponseField>\<newline>\<newline>''])
       (\<lambda>m g. grp g 1 @ ''**Type:** `'' @ grp g 2 @ ''`\<newline>\<newline>''
              @ with_period (trim (grp g 4)) @ ''\<newline>\<newline>'')
       content"

text \<open>
  Fix triple closing ResponseField tags: while the text contains three closing tags on
  three lines in a row, every such triple is replaced by one closing tag.
\<close>

definition triple_close :: string where
  "triple_close = ''</ResponseField>\<newline></ResponseField>\<newline></ResponseField>''"

function replace_lit :: "string \<Rightarrow> string \<Rightarrow> string \<Rightarrow> string" where
  "replace_lit pat rep [] = []"
| "replace_lit pat rep (c # cs) =
     (case strip_prefix pat (c # cs) of
        None \<Rightarrow> c # replace_lit pat rep cs
      | Some rest \<Rightarrow> if pat = [] then c # cs else rep @ replace_lit pat rep rest)"
  by pat_completeness auto

lemma strip_prefix_length:
  "strip_prefix pat s = Some rest \<Longrightarrow> length rest + length pat = length s"
  by (induction pat s rule: strip_prefix.induct) (auto split: if_splits)

termination replace_lit
proof (relation "measure (\<lambda>(pat, rep, s). length s)", goal_cases)
  case 1
  show ?case by simp
next
  case (2 pat rep c cs)
  show ?case by simp
next
  case (3 pat rep c cs rest)
  with strip_prefix_length [of pat "c # cs" rest] show ?case by (cases pat) auto
qed

lemma startsWith_strip_prefix: "startsWith s p \<longleftrightarrow> strip_prefix p s \<noteq> None"
  by (induction p s rule: strip_prefix.induct) auto

lemma replace_lit_length_le:
  "length rep \<le> length pat \<Longrightarrow> length (replace_lit pat rep s) \<le> length s"
proof (induction pat rep s rule: replace_lit.induct)
  case (1 pat rep)
  show ?case by simp
next
  case (2 pat rep c cs)
  show ?case
  proof (cases "pat = []")
    case True
    then show ?thesis by simp
  next
    case False
    show ?thesis
    proof (cases "strip_prefix pat (c # cs)")
      case None
      with 2 show ?thesis by simp
    next
      case (Some rest)
      with 2(2) [OF Some False] 2(3) strip_prefix_length [OF Some] False show ?thesis by simp
    qed
  qed
qed

lemma replace_lit_length_less:
  "length rep < length pat \<Longrightarrow> str_includes s pat \<Longrightarrow>
   length (replace_lit pat rep s) < length s"
proof (induction s)
  case Nil
  then show ?case by simp
next
  case (Cons c cs)
  from Cons.prems(1) have ne: "pat \<noteq> []" by auto
  show ?case
  proof (cases "strip_prefix pat (c # cs)")
    case None
    then have "\<not> startsWith (c # cs) pat" by (simp add: startsWith_strip_prefix)
    with Cons.prems(2) have "str_includes cs pat" by simp
    with Cons.IH Cons.prems(1) None show ?thesis by simp
  next
    case (Some rest)
    from replace_lit_length_le [of rep pat rest] Cons.prems(1)
    have "length (replace_lit pat rep rest) \<le> length rest" by simp
    with strip_prefix_length [OF Some] Cons.prems(1) Some ne show ?thesis by simp
  qed
qed

function collapse_triple_closes :: "string \<Rightarrow> string" where
  "collapse_triple_closes content =
     (if str_includes content triple_close
      then collapse_triple_closes (replace_lit triple_close ''</ResponseField>'' content)
      else content)"
  by pat_completeness auto
termination
proof (relation "measure length", goal_cases)
  case 1
  show ?case by simp
next
  case (2 content)
  have "length ''</ResponseField>'' < length triple_close" by (simp add: triple_close_def)
  from replace_lit_length_less [OF this 2] show ?case by simp
qed

declare collapse_triple_closes.simps [simp del]

text \<open>
  Fix unclosed ResponseField tags in nested structures:
  \<^verbatim>\<open>/(<ResponseField name="(\w+)"[^>]*>)\n([^\n]+)\n\n(###### \w+)/g\<close>, and the same
  with three line feeds before the heading; the field is closed before the heading.
\<close>

definition unclosed_field_rx :: "string \<Rightarrow> rx" where
  "unclosed_field_rx gap =
     Seqs [Group 1 (Seqs [Lit ''<ResponseField name=\"'', Group 2 word1, Lit [DQ],
                          Star True (Ch (none_of ''>'')), Lit ''>'']),
           NL, Group 3 (Plus True (Ch (none_of [LF]))), Lit gap,
           Group 4 (Seq (Lit ''###### '') word1)]"

definition close_unclosed_fields :: "string \<Rightarrow> string" where
  "close_unclosed_fields content =
     replace_all (unclosed_field_rx ''\<newline>\<newline>\<newline>'')
       (\<lambda>m g. grp g 1 @ ''\<newline>'' @ grp g 3 @ ''\<newline></ResponseField>\<newline>\<newline>'' @ grp g 4)
       (replace_all (unclosed_field_rx ''\<newline>\<newline>'')
          (\<lambda>m g. grp g 1 @ ''\<newline>'' @ grp g 3 @ ''\<newline></ResponseField>\<newline>\<newline>''
                 @ grp g 4)
          content)"

text \<open>
  Fix retry object - ensure parent is closed after all nested ResponseFields:
  \<^verbatim>\<open>/(<ResponseField name="retry" type="object">\n[^\n]+\n\n)([\s\S]*?)(<\/ResponseField>\s*\n\n)(### [A-Z]|## [A-Z]|# [A-Z]|$)/g\<close>.
  Fix retry object when parent is not closed at all:
  \<^verbatim>\<open>/(<ResponseField name="retry" type="object">\n[^\n]+\n\n)([\s\S]*?)(\n### [A-Z]|\n## [A-Z]|\n# [A-Z]|$)/g\<close>.
  The callbacks count the opening and closing tags of the nested part.
\<close>

definition count_matches :: "rx \<Rightarrow> string \<Rightarrow> nat" where
  "count_matches r s = length (match_all r s)"

definition retry_open :: rx where
  "retry_open =
     Seqs [Lit ''<ResponseField name=\"retry\" type=\"object\">\<newline>'',
           Plus True (Ch (none_of [LF])), Lit ''\<newline>\<newline>'']"

definition section_start :: "string \<Rightarrow> rx" where
  "section_start lead =
     Alts [Seq (Lit (lead @ ''### '')) (Ch is_upper), Seq (Lit (lead @ ''## '')) (Ch is_upper),
           Seq (Lit (lead @ ''# '')) (Ch is_upper), Eos]"

definition fix_retry_closed :: "string \<Rightarrow> string" where
  "fix_retry_closed content =
     replace_all
       (Seqs [Group 1 retry_open, Group 2 (Star False (Ch any_char)),
              Group 3 (Seqs [Lit ''</ResponseField>'', spaces, Lit ''\<newline>\<newline>'']),
              Group 4 (section_start [])])
       (\<lambda>m g.
          (let nested = grp g 2;
               opens = count_matches (Lit ''<ResponseField'') nested;
               closes = count_matches (Lit ''</ResponseField>'') nested
           in if opens = closes \<and> opens > 0 \<and> \<not> endsWith (trim nested) ''</ResponseField>''
              then grp g 1 @ nested @ grp g 3 @ ''</ResponseField>\<newline>\<newline>'' @ grp g 4
              else m))
       content"

definition fix_retry_unclosed :: "string \<Rightarrow> string" where
  "fix_retry_unclosed content =
     replace_all
       (Seqs [Group 1 retry_open, Group 2 (Star False (Ch any_char)),
              Group 3 (section_start [LF])])
       (\<lambda>m g.
          (let openTag = grp g 1; nextSection = grp g 3;
               fixedNested0 =
                 replace_all (Seqs [Lit ''</ResponseField>'', spaces, Lit ''\<newline>\<newline>'',
                                    Ahead (Lit ''######'')])
                   (\<lambda>m g. ''\<newline>\<newline>'') (grp g 2);
               opens = count_matches (Lit ''<ResponseField'') fixedNested0;
               closes = count_matches (Lit ''</ResponseField>'') fixedNested0;
               fixedNested =
                 (if opens > closes
                  then replace_all
                         (Seqs [Group 1 (open_field ''ResponseField''), NL,
                                Group 2 (Plus True (Ch (none_of [LF]))), Lit ''\<newline>\<newline>'',
                                Ahead (Seq (Lit ''###### '') word1)])
                         (\<lambda>m g. grp g 1 @ ''\<newline>'' @ grp g 2
                                @ ''\<newline></ResponseField>\<newline>\<newline>'')
                         fixedNested0
                  else fixedNested0);
               finalOpens = count_matches (Lit ''<ResponseField'') fixedNested;
               finalCloses = count_matches (Lit ''</ResponseField>'') fixedNested;
               hasClosingBeforeNext = endsWith (trim fixedNested) ''</ResponseField>''
           in if finalOpens = finalCloses
              then (if \<not> hasClosingBeforeNext
                    then openTag @ fixedNested @ ''\<newline></ResponseField>\<newline>\<newline>''
                         @ nextSection
                    else if rx_test
                              (Seqs [Lit ''</ResponseField>'', spaces,
                                     Lit ''\<newline>\<newline></ResponseField>'', spaces,
                                     Lit ''\<newline>\<newline>'', Ahead (Lit ''### '')])
                              (fixedNested @ ''\<newline>\<newline>'' @ nextSection)
                    then openTag @ fixedNested @ ''\<newline>\<newline>'' @ nextSection
                    else openTag @ fixedNested @ ''\<newline></ResponseField>\<newline>\<newline>''
                         @ nextSection)
              else m))
       content"

text \<open>
  Remove orphaned closing ResponseField tags:
  \<^verbatim>\<open>/\n\n<\/ResponseField>\s*\n\n(?=### |## |# |$)/g\<close> to two line feeds;
  remove double closing tags:
  \<^verbatim>\<open>/(<\/ResponseField>\s*\n\n)\s*<\/ResponseField>\s*\n\n(?=### |## |# |$)/g\<close> to
  \<^verbatim>\<open>$1\n\n\<close>.
  Fix missing periods in nested ResponseField descriptions:
  \<^verbatim>\<open>/(<ResponseField[^>]*>)\n([^<]+?)\n\n(?=######)/g\<close>.
\<close>

definition heading_or_end :: rx where
  "heading_or_end = Ahead (Alts [Lit ''### '', Lit ''## '', Lit ''# '', Eos])"

definition remove_orphan_closes :: "string \<Rightarrow> string" where
  "remove_orphan_closes content =
     replace_all
       (Seqs [Group 1 (Seqs [Lit ''</ResponseField>'', spaces, Lit ''\<newline>\<newline>'']),
              spaces, Lit ''</ResponseField>'', spaces, Lit ''\<newline>\<newline>'', heading_or_end])
       (\<lambda>m g. grp g 1 @ ''\<newline>\<newline>'')
       (replace_all
          (Seqs [Lit ''\<newline>\<newline></ResponseField>'', spaces, Lit ''\<newline>\<newline>'',
                 heading_or_end])
          (\<lambda>m g. ''\<newline>\<newline>'')
          content)"

definition fix_missing_periods :: "string \<Rightarrow> string" where
  "fix_missing_periods content =
     replace_all
       (Seqs [Group 1 (open_field ''ResponseField''), NL,
              Group 2 (Plus False (Ch (none_of ''<''))), Lit ''\<newline>\<newline>'',
              Ahead (Lit ''######'')])
       (\<lambda>m g. grp g 1 @ ''\<newline>'' @ with_period (trim (grp g 2)) @ ''\<newline>\<newline>'')
       content"

text \<open>The whole of \<open>beautifyStructure\<close>, stage after stage.\<close>

definition beautifyStructure :: "string \<Rightarrow> string" where
  "beautifyStructure content =
     fix_missing_periods
       (remove_orphan_closes
          (fix_retry_unclosed
             (fix_retry_closed
                (close_unclosed_fields
                   (collapse_triple_closes
                      (fix_class_property ''type''
                         (fix_class_property ''statusCode''
                            (transformFunctionParameters
                               (cleanup_periods
                                  (cleanup_hash_artifacts
                                     (cleanup_fields
                                        (cleanup_spacing
                                           (balanceTagLines
                                              (fix_broken_return_types content))))))))))))))"

section \<open>Example inputs\<close>

text \<open>
  Concrete inputs for the statements below: a renderer with an empty map, a class with
  string properties of given names, an enum with the members \<open>A = "A"\<close> and
  \<open>B = "B"\<close>, and a parameter \<open>name: string\<close> documented as "the user name".
\<close>

definition plain_renderer :: renderer where
  "plain_renderer =
     \<lparr>typeToUrlMap = [], currentPageUrl = None, frontmatterDescription = None,
      indexPageUrl = ''/api/index''\<rparr>"



definition enum_member :: "string \<Rightarrow> string \<Rightarrow> reflection" where
  "enum_member n v = Declaration n 16 None False None (Some v) [] []"

definition enum_AB :: reflection where
  "enum_AB =
     Declaration ''Letter'' 8 None False None None []
       [enum_member ''A'' ''\"A\"'', enum_member ''B'' ''\"B\"'']"

definition documented_parameter :: parameter where
  "documented_parameter =
     Parameter ''name'' False (Some (Intrinsic ''string''))
       (Some (Comment [Part (Some ''text'') (Some ''the user name'')] []))"

section \<open>Properties of slugify\<close>

lemma collapse_non_alnum_chars: "list_all is_slug_char (collapse_non_alnum s)"
  by (induction s rule: collapse_non_alnum.induct)
     (auto simp: is_slug_char_def is_slug_alnum_def)

lemma take1_dropWhile_hyphen: "take 1 (dropWhile is_hyphen xs) \<noteq> ''-''"
  by (induction xs) (auto simp: is_hyphen_def)

lemma rev_dropWhile_rev_take:
  "rev (dropWhile P (rev ys)) = take (length (dropWhile P (rev ys))) ys"
proof -
  have "rev ys = takeWhile P (rev ys) @ dropWhile P (rev ys)"
    by simp
  then have "ys = rev (dropWhile P (rev ys)) @ rev (takeWhile P (rev ys))"
    by (metis rev_append rev_rev_ident)
  then have "take (length (rev (dropWhile P (rev ys)))) ys = rev (dropWhile P (rev ys))"
    by (metis append_eq_conv_conj)
  then show ?thesis by simp
qed

lemma strip_hyphens_chars:
  "list_all is_slug_char s \<Longrightarrow> list_all is_slug_char (strip_hyphens s)"
proof -
  assume a: "list_all is_slug_char s"
  have "set (strip_hyphens s) \<subseteq> set (dropWhile is_hyphen s)"
    unfolding strip_hyphens_def
    by (metis set_dropWhileD set_rev subsetI)
  then have "set (strip_hyphens s) \<subseteq> set s"
    using set_dropWhileD by fastforce
  with a show ?thesis by (auto simp: list_all_iff)
qed

lemma strip_hyphens_first: "take 1 (strip_hyphens s) \<noteq> ''-''"
proof -
  let ?ys = "dropWhile is_hyphen s"
  let ?n = "length (dropWhile is_hyphen (rev ?ys))"
  have eq: "strip_hyphens s = take ?n ?ys"
    unfolding strip_hyphens_def by (rule rev_dropWhile_rev_take)
  show ?thesis
  proof (cases ?n)
    case 0
    with eq show ?thesis by simp
  next
    case (Suc k)
    then have "take 1 (take ?n ?ys) = take 1 ?ys" by (simp add: min_def)
    with eq take1_dropWhile_hyphen [of s] show ?thesis by simp
  qed
qed

lemma strip_hyphens_last: "take 1 (rev (strip_hyphens s)) \<noteq> ''-''"
  unfolding strip_hyphens_def rev_rev_ident by (rule take1_dropWhile_hyphen)

text \<open>
  C10. For every input string, \<open>slugify\<close> returns a string made only of lowercase ASCII
  letters, digits and hyphens, and the result neither starts nor ends with a hyphen.
\<close>

theorem slugify_shape:
  "list_all is_slug_char (slugify s)
   \<and> take 1 (slugify s) \<noteq> ''-''
   \<and> take 1 (rev (slugify s)) \<noteq> ''-''"
  unfolding slugify_def
  using collapse_non_alnum_chars strip_hyphens_chars strip_hyphens_first strip_hyphens_last
  by blast

section \<open>Parameter locations\<close>

text \<open>
  C5. The classifier of parameter locations gives \<open>path\<close> for \<open>userId\<close>, \<open>query\<close> for
  \<open>limit\<close>, \<open>header\<close> for \<open>authorization\<close> and \<open>body\<close> for \<open>payload\<close>; so does the
  classifier of the page renderer.
\<close>

theorem parameter_location_examples:
  "determineParameterLocation ''userId'' = ''path''
   \<and> determineParameterLocation ''limit'' = ''query''
   \<and> determineParameterLocation ''authorization'' = ''header''
   \<and> determineParameterLocation ''payload'' = ''body''
   \<and> page_parameter_location ''userId'' = ''path''
   \<and> page_parameter_location ''limit'' = ''query''
   \<and> page_parameter_location ''authorization'' = ''header''
   \<and> page_parameter_location ''payload'' = ''body''"
  by code_simp

section \<open>The type formatter returns\<close>

lemma collect_map_Inr:
  "(\<And>x. x \<in> set xs \<Longrightarrow> \<exists>v. f x = Inr v) \<Longrightarrow> \<exists>vs. collect (map f xs) = Inr vs"
proof (induction xs)
  case Nil
  show ?case by simp
next
  case (Cons x xs)
  from Cons.prems [of x] obtain v where v: "f x = Inr v" by auto
  from Cons.IH Cons.prems obtain vs where "collect (map f xs) = Inr vs" by auto
  with v show ?case by simp
qed

lemma and_then_Inr: "and_then (Inr v) f = f v"
  by (simp add: and_then_def)

lemma max_list_upper: "x \<in> set xs \<Longrightarrow> x \<le> max_list xs"
  by (induction xs) auto

lemma call_depth_calls:
  "call_depth t \<le> Suc k \<Longrightarrow> u \<in> set (calls t) \<Longrightarrow> call_depth u \<le> k"
proof -
  assume d: "call_depth t \<le> Suc k" and u: "u \<in> set (calls t)"
  from u have "call_depth u \<in> set (map call_depth (calls t))" by simp
  then have "call_depth u \<le> max_list (map call_depth (calls t))" by (rule max_list_upper)
  with d show ?thesis by (subst (asm) call_depth.simps) simp
qed

lemma call_depth_pos: "call_depth t \<le> n \<Longrightarrow> \<exists>k. n = Suc k"
  by (subst (asm) call_depth.simps) (cases n, auto)

lemma bigint_free_calls: "bigint_free t \<Longrightarrow> u \<in> set (calls t) \<Longrightarrow> bigint_free u"
  by (subst (asm) bigint_free.simps) (simp add: list_all_iff)

lemma bigint_free_literal: "bigint_free (Some (Literal v)) \<Longrightarrow> \<exists>s. json_stringify v = Inr s"
  by (subst (asm) bigint_free.simps) (cases v, auto simp: is_bigint_def)

text \<open>With room for the nested calls, the bounded function is \<open>formatType\<close>.\<close>

lemma formatType_fuel_enough:
  "call_depth t \<le> n \<Longrightarrow> formatType_fuel n m t = formatType m t"
proof (induction m t arbitrary: n rule: formatType.induct)
  case (4 m nm typeArguments)
  from call_depth_pos [OF 4(2)] obtain k where n: "n = Suc k" by auto
  have "map (\<lambda>t. formatType_fuel k m (Some t)) typeArguments
        = map (\<lambda>t. formatType m (Some t)) typeArguments"
  proof (rule map_cong [OF refl])
    fix t assume t: "t \<in> set typeArguments"
    then have ne: "typeArguments \<noteq> []" by auto
    have "call_depth (Some t) \<le> k"
      by (rule call_depth_calls [OF 4(2) [unfolded n]]) (simp add: t)
    with 4(1) [OF ne t] show "formatType_fuel k m (Some t) = formatType m (Some t)" .
  qed
  then show ?case by (simp add: n del: map_eq_conv)
next
  case (5 m elementType)
  from call_depth_pos [OF 5(2)] obtain k where n: "n = Suc k" by auto
  have "call_depth (Some elementType) \<le> k"
    by (rule call_depth_calls [OF 5(2) [unfolded n]]) simp
  with 5(1) show ?case by (simp add: n)
next
  case (6 m types)
  from call_depth_pos [OF 6(2)] obtain k where n: "n = Suc k" by auto
  have "map (\<lambda>t. formatType_fuel k m (Some t)) types = map (\<lambda>t. formatType m (Some t)) types"
  proof (rule map_cong [OF refl])
    fix t assume t: "t \<in> set types"
    have "call_depth (Some t) \<le> k"
      by (rule call_depth_calls [OF 6(2) [unfolded n]]) (simp add: t)
    with 6(1) [OF t] show "formatType_fuel k m (Some t) = formatType m (Some t)" .
  qed
  then show ?case by (simp add: n del: map_eq_conv)
next
  case (7 m types)
  from call_depth_pos [OF 7(2)] obtain k where n: "n = Suc k" by auto
  have "map (\<lambda>t. formatType_fuel k m (Some t)) types = map (\<lambda>t. formatType m (Some t)) types"
  proof (rule map_cong [OF refl])
    fix t assume t: "t \<in> set types"
    have "call_depth (Some t) \<le> k"
      by (rule call_depth_calls [OF 7(2) [unfolded n]]) (simp add: t)
    with 7(1) [OF t] show "formatType_fuel k m (Some t) = formatType m (Some t)" .
  qed
  then show ?case by (simp add: n del: map_eq_conv)
next
  case (9 m elements)
  from call_depth_pos [OF 9(2)] obtain k where n: "n = Suc k" by auto
  have "map (\<lambda>t. formatType_fuel k m (Some t)) elements
        = map (\<lambda>t. formatType m (Some t)) elements"
  proof (rule map_cong [OF refl])
    fix t assume t: "t \<in> set elements"
    have "call_depth (Some t) \<le> k"
      by (rule call_depth_calls [OF 9(2) [unfolded n]]) (simp add: t)
    with 9(1) [OF t] show "formatType_fuel k m (Some t) = formatType m (Some t)" .
  qed
  then show ?case by (simp add: n del: map_eq_conv)
next
  case (11 m reflection)
  from call_depth_pos [OF 11(4)] obtain k where n: "n = Suc k" by auto
  note depth = call_depth_calls [OF 11(4) [unfolded n]]
  show ?case
  proof (cases "d_signatures reflection")
    case (Cons sg sgs)
    have ret: "formatType_fuel k m (s_type sg) = formatType m (s_type sg)"
      by (rule 11(3) [OF Cons], rule depth) (simp add: Cons)
    have "map (\<lambda>p. and_then (formatType_fuel k m (p_type p))
                (\<lambda>type. Inr (p_name p @ optional_mark (p_isOptional p) @ '': '' @ type)))
            (s_parameters sg)
          = map (\<lambda>p. and_then (formatType m (p_type p))
                (\<lambda>type. Inr (p_name p @ optional_mark (p_isOptional p) @ '': '' @ type)))
            (s_parameters sg)"
    proof (rule map_cong [OF refl])
      fix p assume p: "p \<in> set (s_parameters sg)"
      have "formatType_fuel k m (p_type p) = formatType m (p_type p)"
        by (rule 11(2) [OF Cons p], rule depth) (simp add: Cons p)
      then show "and_then (formatType_fuel k m (p_type p))
                   (\<lambda>type. Inr (p_name p @ optional_mark (p_isOptional p) @ '': '' @ type))
                 = and_then (formatType m (p_type p))
                   (\<lambda>type. Inr (p_name p @ optional_mark (p_isOptional p) @ '': '' @ type))"
        by simp
    qed
    with ret Cons show ?thesis by (simp add: n del: map_eq_conv)
  next
    case Nil
    show ?thesis
    proof (cases "d_children reflection")
      case Nil': Nil
      with Nil show ?thesis by (simp add: n)
    next
      case (Cons c cs)
      have "map (\<lambda>child. and_then (formatType_fuel k m (d_type child))
                  (\<lambda>type. Inr (d_name child @ optional_mark (d_isOptional child)
                                @ '': '' @ type)))
              (d_children reflection)
            = map (\<lambda>child. and_then (formatType m (d_type child))
                  (\<lambda>type. Inr (d_name child @ optional_mark (d_isOptional child)
                                @ '': '' @ type)))
              (d_children reflection)"
      proof (rule map_cong [OF refl])
        fix child assume c: "child \<in> set (d_children reflection)"
        have "formatType_fuel k m (d_type child) = formatType m (d_type child)"
          by (rule 11(1) [OF Nil Cons c], rule depth) (simp add: Nil c)
        then show "and_then (formatType_fuel k m (d_type child))
                     (\<lambda>type. Inr (d_name child @ optional_mark (d_isOptional child)
                                   @ '': '' @ type))
                   = and_then (formatType m (d_type child))
                     (\<lambda>type. Inr (d_name child @ optional_mark (d_isOptional child)
                                   @ '': '' @ type))"
          by simp
      qed
      with Nil Cons show ?thesis by (simp add: n del: map_eq_conv)
    qed
  qed
next
  case (12 m checkType extendsType trueType falseType)
  from call_depth_pos [OF 12(5)] obtain k where n: "n = Suc k" by auto
  note depth = call_depth_calls [OF 12(5) [unfolded n]]
  have "formatType_fuel k m (Some checkType) = formatType m (Some checkType)"
    "formatType_fuel k m (Some extendsType) = formatType m (Some extendsType)"
    "formatType_fuel k m (Some trueType) = formatType m (Some trueType)"
    "formatType_fuel k m (Some falseType) = formatType m (Some falseType)"
    by (rule 12(1), rule depth, simp, rule 12(2), rule depth, simp,
        rule 12(3), rule depth, simp, rule 12(4), rule depth, simp)
  then show ?case by (simp add: n del: map_eq_conv)
next
  case (13 m objectType indexType)
  from call_depth_pos [OF 13(3)] obtain k where n: "n = Suc k" by auto
  note depth = call_depth_calls [OF 13(3) [unfolded n]]
  have "formatType_fuel k m (Some objectType) = formatType m (Some objectType)"
    "formatType_fuel k m (Some indexType) = formatType m (Some indexType)"
    by (rule 13(1), rule depth, simp, rule 13(2), rule depth, simp)
  then show ?case by (simp add: n del: map_eq_conv)
next
  case (15 m name targetType)
  from call_depth_pos [OF 15(2)] obtain k where n: "n = Suc k" by auto
  have "formatType_fuel k m (Some (PlainString ''predicate''))
        = formatType m (Some (PlainString ''predicate''))"
    by (rule 15(1), rule call_depth_calls [OF 15(2) [unfolded n]]) simp
  then show ?case by (simp add: n del: map_eq_conv)
next
  case (1 m)
  from call_depth_pos [OF 1] obtain k where "n = Suc k" by auto
  then show ?case by simp
next
  case (2 m s)
  from call_depth_pos [OF 2] obtain k where "n = Suc k" by auto
  then show ?case by simp
next
  case (3 m nm)
  from call_depth_pos [OF 3] obtain k where "n = Suc k" by auto
  then show ?case by simp
next
  case (8 m v)
  from call_depth_pos [OF 8] obtain k where "n = Suc k" by auto
  then show ?case by simp
next
  case (10 m)
  from call_depth_pos [OF 10] obtain k where "n = Suc k" by auto
  then show ?case by simp
next
  case (14 m queryName)
  from call_depth_pos [OF 14] obtain k where "n = Suc k" by auto
  then show ?case by simp
next
  case (16 m toString)
  from call_depth_pos [OF 16] obtain k where "n = Suc k" by auto
  then show ?case by simp
next
  case (17 m toString)
  from call_depth_pos [OF 17] obtain k where "n = Suc k" by auto
  then show ?case by simp
qed

text \<open>Without a bigint literal no call of \<open>formatType\<close> raises.\<close>

lemma formatType_bigint_free:
  "bigint_free t \<Longrightarrow> \<exists>s. formatType m t = Inr s"
proof (induction m t rule: formatType.induct)
  case (4 m nm typeArguments)
  have "\<exists>vs. collect (map (\<lambda>t. formatType m (Some t)) typeArguments) = Inr vs"
  proof (rule collect_map_Inr)
    fix t assume t: "t \<in> set typeArguments"
    then have ne: "typeArguments \<noteq> []" by auto
    have "bigint_free (Some t)" by (rule bigint_free_calls [OF 4(2)]) (simp add: t)
    with 4(1) [OF ne t] show "\<exists>v. formatType m (Some t) = Inr v" .
  qed
  then show ?case by (auto simp: and_then_Inr)
next
  case (5 m elementType)
  have "bigint_free (Some elementType)" by (rule bigint_free_calls [OF 5(2)]) simp
  with 5(1) show ?case by (auto simp: and_then_Inr)
next
  case (6 m types)
  have "\<exists>vs. collect (map (\<lambda>t. formatType m (Some t)) types) = Inr vs"
  proof (rule collect_map_Inr)
    fix t assume t: "t \<in> set types"
    have "bigint_free (Some t)" by (rule bigint_free_calls [OF 6(2)]) (simp add: t)
    with 6(1) [OF t] show "\<exists>v. formatType m (Some t) = Inr v" .
  qed
  then show ?case by (auto simp: and_then_Inr)
next
  case (7 m types)
  have "\<exists>vs. collect (map (\<lambda>t. formatType m (Some t)) types) = Inr vs"
  proof (rule collect_map_Inr)
    fix t assume t: "t \<in> set types"
    have "bigint_free (Some t)" by (rule bigint_free_calls [OF 7(2)]) (simp add: t)
    with 7(1) [OF t] show "\<exists>v. formatType m (Some t) = Inr v" .
  qed
  then show ?case by (auto simp: and_then_Inr)
next
  case (8 m v)
  then show ?case by (simp add: bigint_free_literal)
next
  case (9 m elements)
  have "\<exists>vs. collect (map (\<lambda>t. formatType m (Some t)) elements) = Inr vs"
  proof (rule collect_map_Inr)
    fix t assume t: "t \<in> set elements"
    have "bigint_free (Some t)" by (rule bigint_free_calls [OF 9(2)]) (simp add: t)
    with 9(1) [OF t] show "\<exists>v. formatType m (Some t) = Inr v" .
  qed
  then show ?case by (auto simp: and_then_Inr)
next
  case (11 m reflection)
  note free = bigint_free_calls [OF 11(4)]
  show ?case
  proof (cases "d_signatures reflection")
    case (Cons sg sgs)
    have "bigint_free (s_type sg)" by (rule free) (simp add: Cons)
    with 11(3) [OF Cons] obtain returnType where ret: "formatType m (s_type sg) = Inr returnType"
      by auto
    have "\<exists>vs. collect (map (\<lambda>p. and_then (formatType m (p_type p))
                (\<lambda>type. Inr (p_name p @ optional_mark (p_isOptional p) @ '': '' @ type)))
            (s_parameters sg)) = Inr vs"
    proof (rule collect_map_Inr)
      fix p assume p: "p \<in> set (s_parameters sg)"
      have "bigint_free (p_type p)" by (rule free) (simp add: Cons p)
      with 11(2) [OF Cons p] obtain type where "formatType m (p_type p) = Inr type" by auto
      then show "\<exists>v. and_then (formatType m (p_type p))
                   (\<lambda>type. Inr (p_name p @ optional_mark (p_isOptional p) @ '': '' @ type))
                 = Inr v"
        by (simp add: and_then_Inr)
    qed
    with ret Cons show ?thesis by (auto simp: and_then_Inr)
  next
    case Nil
    show ?thesis
    proof (cases "d_children reflection")
      case Nil': Nil
      with Nil show ?thesis by simp
    next
      case (Cons c cs)
      have "\<exists>vs. collect (map (\<lambda>child. and_then (formatType m (d_type child))
                  (\<lambda>type. Inr (d_name child @ optional_mark (d_isOptional child)
                                @ '': '' @ type)))
              (d_children reflection)) = Inr vs"
      proof (rule collect_map_Inr)
        fix child assume c: "child \<in> set (d_children reflection)"
        have "bigint_free (d_type child)" by (rule free) (simp add: Nil c)
        with 11(1) [OF Nil Cons c] obtain type where "formatType m (d_type child) = Inr type"
          by auto
        then show "\<exists>v. and_then (formatType m (d_type child))
                     (\<lambda>type. Inr (d_name child @ optional_mark (d_isOptional child)
                                   @ '': '' @ type))
                   = Inr v"
          by (simp add: and_then_Inr)
      qed
      with Nil Cons show ?thesis by (auto simp: and_then_Inr)
    qed
  qed
next
  case (12 m checkType extendsType trueType falseType)
  note free = bigint_free_calls [OF 12(5)]
  have "bigint_free (Some checkType)" "bigint_free (Some extendsType)"
    "bigint_free (Some trueType)" "bigint_free (Some falseType)"
    by (rule free, simp)+
  with 12(1-4) show ?case by (auto simp: and_then_Inr)
next
  case (13 m objectType indexType)
  note free = bigint_free_calls [OF 13(3)]
  have "bigint_free (Some objectType)" "bigint_free (Some indexType)"
    by (rule free, simp)+
  with 13(1-2) show ?case by (auto simp: and_then_Inr)
next
  case (15 m name targetType)
  show ?case by (simp add: and_then_Inr)
qed simp_all

text \<open>At a bigint literal that the formatter meets, the call raises \<open>TypeError\<close>.\<close>

lemma collect_map_error:
  "(\<And>x. x \<in> set xs \<Longrightarrow> f x = Inl e \<or> (\<exists>v. f x = Inr v)) \<Longrightarrow>
   \<exists>x \<in> set xs. f x = Inl e \<Longrightarrow> collect (map f xs) = Inl e"
proof (induction xs)
  case Nil
  then show ?case by simp
next
  case (Cons x xs)
  from Cons.prems(1) [of x] consider "f x = Inl e" | v where "f x = Inr v" by auto
  then show ?case
  proof cases
    case 1
    then show ?thesis by simp
  next
    case 2
    with Cons.prems(2) have "\<exists>y \<in> set xs. f y = Inl e" by auto
    with Cons.IH Cons.prems(1) have "collect (map f xs) = Inl e" by auto
    with 2 show ?thesis by simp
  qed
qed

lemma and_then_Inl: "and_then (Inl e) f = Inl e"
  by (simp add: and_then_def)

lemma not_bigint_free_calls:
  "\<not> bigint_free t \<Longrightarrow> \<not> is_bigint t \<Longrightarrow> \<exists>u \<in> set (calls t). \<not> bigint_free u"
  by (subst (asm) bigint_free.simps) (simp add: list_all_iff)

lemma formatType_bigint:
  "\<not> bigint_free t \<Longrightarrow> formatType m t = Inl TypeError"
proof (induction m t rule: formatType.induct)
  case (4 m nm typeArguments)
  from not_bigint_free_calls [OF 4(2)] have ex: "\<exists>t \<in> set typeArguments. \<not> bigint_free (Some t)"
    by (auto simp: is_bigint_def)
  then have ne: "typeArguments \<noteq> []" by auto
  have "collect (map (\<lambda>t. formatType m (Some t)) typeArguments) = Inl TypeError"
  proof (rule collect_map_error)
    fix t assume t: "t \<in> set typeArguments"
    from 4(1) [OF ne t] formatType_bigint_free [of "Some t" m]
    show "formatType m (Some t) = Inl TypeError \<or> (\<exists>v. formatType m (Some t) = Inr v)"
      by blast
  next
    from ex 4(1) [OF ne] show "\<exists>t \<in> set typeArguments. formatType m (Some t) = Inl TypeError"
      by blast
  qed
  with ne show ?case by (simp add: and_then_Inl)
next
  case (5 m elementType)
  from not_bigint_free_calls [OF 5(2)] have "\<not> bigint_free (Some elementType)"
    by (auto simp: is_bigint_def)
  with 5(1) show ?case by (simp add: and_then_Inl)
next
  case (6 m types)
  from not_bigint_free_calls [OF 6(2)] have ex: "\<exists>t \<in> set types. \<not> bigint_free (Some t)"
    by (auto simp: is_bigint_def)
  have "collect (map (\<lambda>t. formatType m (Some t)) types) = Inl TypeError"
  proof (rule collect_map_error)
    fix t assume t: "t \<in> set types"
    from 6(1) [OF t] formatType_bigint_free [of "Some t" m]
    show "formatType m (Some t) = Inl TypeError \<or> (\<exists>v. formatType m (Some t) = Inr v)"
      by blast
  next
    from ex 6(1) show "\<exists>t \<in> set types. formatType m (Some t) = Inl TypeError" by blast
  qed
  then show ?case by (simp add: and_then_Inl)
next
  case (7 m types)
  from not_bigint_free_calls [OF 7(2)] have ex: "\<exists>t \<in> set types. \<not> bigint_free (Some t)"
    by (auto simp: is_bigint_def)
  have "collect (map (\<lambda>t. formatType m (Some t)) types) = Inl TypeError"
  proof (rule collect_map_error)
    fix t assume t: "t \<in> set types"
    from 7(1) [OF t] formatType_bigint_free [of "Some t" m]
    show "formatType m (Some t) = Inl TypeError \<or> (\<exists>v. formatType m (Some t) = Inr v)"
      by blast
  next
    from ex 7(1) show "\<exists>t \<in> set types. formatType m (Some t) = Inl TypeError" by blast
  qed
  then show ?case by (simp add: and_then_Inl)
next
  case (8 m v)
  then have "is_bigint (Some (Literal v))"
    by (subst (asm) bigint_free.simps) simp
  then show ?case by (cases v) (simp_all add: is_bigint_def)
next
  case (9 m elements)
  from not_bigint_free_calls [OF 9(2)] have ex: "\<exists>t \<in> set elements. \<not> bigint_free (Some t)"
    by (auto simp: is_bigint_def)
  have "collect (map (\<lambda>t. formatType m (Some t)) elements) = Inl TypeError"
  proof (rule collect_map_error)
    fix t assume t: "t \<in> set elements"
    from 9(1) [OF t] formatType_bigint_free [of "Some t" m]
    show "formatType m (Some t) = Inl TypeError \<or> (\<exists>v. formatType m (Some t) = Inr v)"
      by blast
  next
    from ex 9(1) show "\<exists>t \<in> set elements. formatType m (Some t) = Inl TypeError" by blast
  qed
  then show ?case by (simp add: and_then_Inl)
next
  case (11 m reflection)
  from not_bigint_free_calls [OF 11(4)]
  have ex: "\<exists>u \<in> set (calls (Some (ReflectionT (Some reflection)))). \<not> bigint_free u"
    by (auto simp: is_bigint_def)
  show ?case
  proof (cases "d_signatures reflection")
    case (Cons sg sgs)
    let ?f = "\<lambda>p. and_then (formatType m (p_type p))
                (\<lambda>type. Inr (p_name p @ optional_mark (p_isOptional p) @ '': '' @ type))"
    have each: "?f p = Inl TypeError \<or> (\<exists>v. ?f p = Inr v)"
      if "p \<in> set (s_parameters sg)" for p
      using 11(2) [OF Cons that] formatType_bigint_free [of "p_type p" m]
      by (cases "bigint_free (p_type p)") (auto simp: and_then_Inl and_then_Inr)
    show ?thesis
    proof (cases "\<exists>p \<in> set (s_parameters sg). \<not> bigint_free (p_type p)")
      case True
      then obtain p where p: "p \<in> set (s_parameters sg)" "\<not> bigint_free (p_type p)" by blast
      with 11(2) [OF Cons p(1)] have "?f p = Inl TypeError" by (simp add: and_then_Inl)
      with p(1) have "\<exists>p \<in> set (s_parameters sg). ?f p = Inl TypeError" by blast
      with each have "collect (map ?f (s_parameters sg)) = Inl TypeError"
        by (intro collect_map_error) auto
      with Cons show ?thesis by (simp add: and_then_Inl)
    next
      case False
      with ex Cons have "\<not> bigint_free (s_type sg)" by auto
      with 11(3) [OF Cons] have ret: "formatType m (s_type sg) = Inl TypeError" by simp
      have "\<exists>vs. collect (map ?f (s_parameters sg)) = Inr vs"
      proof (rule collect_map_Inr)
        fix p assume "p \<in> set (s_parameters sg)"
        with False have "bigint_free (p_type p)" by blast
        from formatType_bigint_free [OF this, of m] obtain s
          where "formatType m (p_type p) = Inr s" by blast
        then show "\<exists>v. ?f p = Inr v" by (simp add: and_then_Inr)
      qed
      with ret Cons show ?thesis by (auto simp: and_then_Inl and_then_Inr)
    qed
  next
    case Nil
    let ?f = "\<lambda>child. and_then (formatType m (d_type child))
                (\<lambda>type. Inr (d_name child @ optional_mark (d_isOptional child) @ '': '' @ type))"
    from ex Nil obtain c where c: "c \<in> set (d_children reflection)" "\<not> bigint_free (d_type c)"
      by auto
    then obtain c0 cs where ch: "d_children reflection = c0 # cs"
      by (cases "d_children reflection") auto
    have each: "?f child = Inl TypeError \<or> (\<exists>v. ?f child = Inr v)"
      if "child \<in> set (d_children reflection)" for child
      using 11(1) [OF Nil ch that] formatType_bigint_free [of "d_type child" m]
      by (cases "bigint_free (d_type child)") (auto simp: and_then_Inl and_then_Inr)
    from 11(1) [OF Nil ch c(1)] c(2) have "?f c = Inl TypeError" by (simp add: and_then_Inl)
    with c(1) have "\<exists>child \<in> set (d_children reflection). ?f child = Inl TypeError" by blast
    with each have "collect (map ?f (d_children reflection)) = Inl TypeError"
      by (intro collect_map_error) auto
    with Nil ch show ?thesis by (simp add: and_then_Inl)
  qed
next
  case (12 m checkType extendsType trueType falseType)
  from not_bigint_free_calls [OF 12(5)]
  have "\<not> bigint_free (Some checkType) \<or> \<not> bigint_free (Some extendsType)
        \<or> \<not> bigint_free (Some trueType) \<or> \<not> bigint_free (Some falseType)"
    by (auto simp: is_bigint_def)
  with 12(1-4) formatType_bigint_free [of "Some checkType" m]
    formatType_bigint_free [of "Some extendsType" m]
    formatType_bigint_free [of "Some trueType" m]
  show ?case
    by (cases "bigint_free (Some checkType)"; cases "bigint_free (Some extendsType)";
        cases "bigint_free (Some trueType)")
       (auto simp: and_then_Inl and_then_Inr)
next
  case (13 m objectType indexType)
  from not_bigint_free_calls [OF 13(3)]
  have "\<not> bigint_free (Some objectType) \<or> \<not> bigint_free (Some indexType)"
    by (auto simp: is_bigint_def)
  with 13(1-2) formatType_bigint_free [of "Some objectType" m]
  show ?case
    by (cases "bigint_free (Some objectType)") (auto simp: and_then_Inl and_then_Inr)
next
  case (15 m name targetType)
  from not_bigint_free_calls [OF 15(2)] have "\<not> bigint_free (Some (PlainString ''predicate''))"
    by (auto simp: is_bigint_def)
  then show ?case by (subst (asm) bigint_free.simps) (simp add: is_bigint_def)
qed (subst (asm) bigint_free.simps, simp add: is_bigint_def)+

text \<open>Without room for the nested calls, the bounded function raises \<open>RangeError\<close>.\<close>

lemma max_list_witness: "k < max_list xs \<Longrightarrow> \<exists>x \<in> set xs. k < x"
  by (induction xs) (auto simp: max_def split: if_splits)

lemma call_depth_deep:
  "Suc k < call_depth t \<Longrightarrow> \<exists>u \<in> set (calls t). k < call_depth u"
proof -
  assume "Suc k < call_depth t"
  then have "k < max_list (map call_depth (calls t))" by (subst (asm) call_depth.simps) simp
  from max_list_witness [OF this] show ?thesis by auto
qed

lemma formatType_fuel_cases:
  assumes free: "bigint_free t"
    and short: "k < call_depth t \<Longrightarrow> formatType_fuel k m t = Inl RangeError"
  shows "formatType_fuel k m t = Inl RangeError \<or> (\<exists>v. formatType_fuel k m t = Inr v)"
proof (cases "k < call_depth t")
  case True
  with short show ?thesis by simp
next
  case False
  then have "call_depth t \<le> k" by simp
  from formatType_fuel_enough [OF this, of m] formatType_bigint_free [OF free, of m]
  show ?thesis by auto
qed

lemma formatType_fuel_short:
  "bigint_free t \<Longrightarrow> n < call_depth t \<Longrightarrow> formatType_fuel n m t = Inl RangeError"
proof (induction m t arbitrary: n rule: formatType.induct)
  case (4 m nm typeArguments)
  show ?case
  proof (cases n)
    case 0
    then show ?thesis by simp
  next
    case (Suc k)
    from call_depth_deep [OF 4(3) [unfolded Suc]]
    obtain t where t: "t \<in> set typeArguments" "k < call_depth (Some t)" by auto
    then have ne: "typeArguments \<noteq> []" by auto
    have free: "bigint_free (Some u)" if "u \<in> set typeArguments" for u
      by (rule bigint_free_calls [OF 4(2)]) (simp add: that)
    have "collect (map (\<lambda>t. formatType_fuel k m (Some t)) typeArguments) = Inl RangeError"
    proof (rule collect_map_error)
      fix u assume u: "u \<in> set typeArguments"
      show "formatType_fuel k m (Some u) = Inl RangeError
            \<or> (\<exists>v. formatType_fuel k m (Some u) = Inr v)"
        by (rule formatType_fuel_cases [OF free [OF u]]) (rule 4(1) [OF ne u free [OF u]])
    next
      from 4(1) [OF ne t(1) free [OF t(1)] t(2)] t(1)
      show "\<exists>t \<in> set typeArguments. formatType_fuel k m (Some t) = Inl RangeError" by blast
    qed
    with ne show ?thesis by (simp add: Suc and_then_Inl)
  qed
next
  case (5 m elementType)
  show ?case
  proof (cases n)
    case 0
    then show ?thesis by simp
  next
    case (Suc k)
    from call_depth_deep [OF 5(3) [unfolded Suc]] have "k < call_depth (Some elementType)"
      by auto
    moreover have "bigint_free (Some elementType)" by (rule bigint_free_calls [OF 5(2)]) simp
    ultimately show ?thesis using 5(1) by (simp add: Suc and_then_Inl)
  qed
next
  case (6 m types)
  show ?case
  proof (cases n)
    case 0
    then show ?thesis by simp
  next
    case (Suc k)
    from call_depth_deep [OF 6(3) [unfolded Suc]]
    obtain t where t: "t \<in> set types" "k < call_depth (Some t)" by auto
    have free: "bigint_free (Some u)" if "u \<in> set types" for u
      by (rule bigint_free_calls [OF 6(2)]) (simp add: that)
    have "collect (map (\<lambda>t. formatType_fuel k m (Some t)) types) = Inl RangeError"
    proof (rule collect_map_error)
      fix u assume u: "u \<in> set types"
      show "formatType_fuel k m (Some u) = Inl RangeError
            \<or> (\<exists>v. formatType_fuel k m (Some u) = Inr v)"
        by (rule formatType_fuel_cases [OF free [OF u]]) (rule 6(1) [OF u free [OF u]])
    next
      from 6(1) [OF t(1) free [OF t(1)] t(2)] t(1)
      show "\<exists>t \<in> set types. formatType_fuel k m (Some t) = Inl RangeError" by blast
    qed
    then show ?thesis by (simp add: Suc and_then_Inl)
  qed
next
  case (7 m types)
  show ?case
  proof (cases n)
    case 0
    then show ?thesis by simp
  next
    case (Suc k)
    from call_depth_deep [OF 7(3) [unfolded Suc]]
    obtain t where t: "t \<in> set types" "k < call_depth (Some t)" by auto
    have free: "bigint_free (Some u)" if "u \<in> set types" for u
      by (rule bigint_free_calls [OF 7(2)]) (simp add: that)
    have "collect (map (\<lambda>t. formatType_fuel k m (Some t)) types) = Inl RangeError"
    proof (rule collect_map_error)
      fix u assume u: "u \<in> set types"
      show "formatType_fuel k m (Some u) = Inl RangeError
            \<or> (\<exists>v. formatType_fuel k m (Some u) = Inr v)"
        by (rule formatType_fuel_cases [OF free [OF u]]) (rule 7(1) [OF u free [OF u]])
    next
      from 7(1) [OF t(1) free [OF t(1)] t(2)] t(1)
      show "\<exists>t \<in> set types. formatType_fuel k m (Some t) = Inl RangeError" by blast
    qed
    then show ?thesis by (simp add: Suc and_then_Inl)
  qed
next
  case (9 m elements)
  show ?case
  proof (cases n)
    case 0
    then show ?thesis by simp
  next
    case (Suc k)
    from call_depth_deep [OF 9(3) [unfolded Suc]]
    obtain t where t: "t \<in> set elements" "k < call_depth (Some t)" by auto
    have free: "bigint_free (Some u)" if "u \<in> set elements" for u
      by (rule bigint_free_calls [OF 9(2)]) (simp add: that)
    have "collect (map (\<lambda>t. formatType_fuel k m (Some t)) elements) = Inl RangeError"
    proof (rule collect_map_error)
      fix u assume u: "u \<in> set elements"
      show "formatType_fuel k m (Some u) = Inl RangeError
            \<or> (\<exists>v. formatType_fuel k m (Some u) = Inr v)"
        by (rule formatType_fuel_cases [OF free [OF u]]) (rule 9(1) [OF u free [OF u]])
    next
      from 9(1) [OF t(1) free [OF t(1)] t(2)] t(1)
      show "\<exists>t \<in> set elements. formatType_fuel k m (Some t) = Inl RangeError" by blast
    qed
    then show ?thesis by (simp add: Suc and_then_Inl)
  qed
next
  case (11 m reflection)
  note free = bigint_free_calls [OF 11(4)]
  show ?case
  proof (cases n)
    case 0
    then show ?thesis by simp
  next
    case (Suc k)
    from call_depth_deep [OF 11(5) [unfolded Suc]]
    obtain u where u: "u \<in> set (calls (Some (ReflectionT (Some reflection))))"
      "k < call_depth u" by auto
    show ?thesis
    proof (cases "d_signatures reflection")
      case (Cons sg sgs)
      let ?f = "\<lambda>p. and_then (formatType_fuel k m (p_type p))
                  (\<lambda>type. Inr (p_name p @ optional_mark (p_isOptional p) @ '': '' @ type))"
      have pfree: "bigint_free (p_type p)" if "p \<in> set (s_parameters sg)" for p
        by (rule free) (simp add: Cons that)
      have rfree: "bigint_free (s_type sg)" by (rule free) (simp add: Cons)
      have each: "?f p = Inl RangeError \<or> (\<exists>v. ?f p = Inr v)"
        if p: "p \<in> set (s_parameters sg)" for p
        using formatType_fuel_cases [OF pfree [OF p], of k m] 11(2) [OF Cons p pfree [OF p]]
        by (auto simp: and_then_Inl and_then_Inr)
      show ?thesis
      proof (cases "\<exists>p \<in> set (s_parameters sg). k < call_depth (p_type p)")
        case True
        then obtain p where p: "p \<in> set (s_parameters sg)" "k < call_depth (p_type p)"
          by blast
        from 11(2) [OF Cons p(1) pfree [OF p(1)] p(2)] have "?f p = Inl RangeError"
          by (simp add: and_then_Inl)
        with p(1) have "\<exists>p \<in> set (s_parameters sg). ?f p = Inl RangeError" by blast
        with each have "collect (map ?f (s_parameters sg)) = Inl RangeError"
          by (intro collect_map_error) auto
        with Cons show ?thesis by (simp add: Suc and_then_Inl)
      next
        case False
        with u Cons have "k < call_depth (s_type sg)" by auto
        from 11(3) [OF Cons rfree this]
        have ret: "formatType_fuel k m (s_type sg) = Inl RangeError" .
        have "\<exists>vs. collect (map ?f (s_parameters sg)) = Inr vs"
        proof (rule collect_map_Inr)
          fix p assume p: "p \<in> set (s_parameters sg)"
          with False have "call_depth (p_type p) \<le> k" by auto
          from formatType_fuel_enough [OF this, of m]
            formatType_bigint_free [OF pfree [OF p], of m]
          show "\<exists>v. ?f p = Inr v" by (auto simp: and_then_Inr)
        qed
        with ret Cons show ?thesis by (auto simp: Suc and_then_Inl and_then_Inr)
      qed
    next
      case Nil
      let ?f = "\<lambda>child. and_then (formatType_fuel k m (d_type child))
                  (\<lambda>type. Inr (d_name child @ optional_mark (d_isOptional child)
                                @ '': '' @ type))"
      from u Nil obtain c where c: "c \<in> set (d_children reflection)"
        "k < call_depth (d_type c)" by auto
      then obtain c0 cs where ch: "d_children reflection = c0 # cs"
        by (cases "d_children reflection") auto
      have cfree: "bigint_free (d_type child)" if "child \<in> set (d_children reflection)"
        for child
        by (rule free) (simp add: Nil that)
      have each: "?f child = Inl RangeError \<or> (\<exists>v. ?f child = Inr v)"
        if x: "child \<in> set (d_children reflection)" for child
        using formatType_fuel_cases [OF cfree [OF x], of k m] 11(1) [OF Nil ch x cfree [OF x]]
        by (auto simp: and_then_Inl and_then_Inr)
      from 11(1) [OF Nil ch c(1) cfree [OF c(1)] c(2)] have "?f c = Inl RangeError"
        by (simp add: and_then_Inl)
      with c(1) have "\<exists>child \<in> set (d_children reflection). ?f child = Inl RangeError"
        by blast
      with each have "collect (map ?f (d_children reflection)) = Inl RangeError"
        by (intro collect_map_error) auto
      with Nil ch show ?thesis by (simp add: Suc and_then_Inl)
    qed
  qed
next
  case (12 m checkType extendsType trueType falseType)
  note free = bigint_free_calls [OF 12(5)]
  show ?case
  proof (cases n)
    case 0
    then show ?thesis by simp
  next
    case (Suc k)
    have f: "bigint_free (Some checkType)" "bigint_free (Some extendsType)"
      "bigint_free (Some trueType)" "bigint_free (Some falseType)"
      by (rule free, simp)+
    from call_depth_deep [OF 12(6) [unfolded Suc]]
    have deep: "k < call_depth (Some checkType) \<or> k < call_depth (Some extendsType)
          \<or> k < call_depth (Some trueType) \<or> k < call_depth (Some falseType)"
      by auto
    from formatType_fuel_cases [OF f(1), of k m] 12(1) [OF f(1)]
      formatType_fuel_cases [OF f(2), of k m] 12(2) [OF f(2)]
      formatType_fuel_cases [OF f(3), of k m] 12(3) [OF f(3)]
      12(4) [OF f(4)] deep
    show ?thesis by (auto simp: Suc and_then_Inl and_then_Inr)
  qed
next
  case (13 m objectType indexType)
  note free = bigint_free_calls [OF 13(3)]
  show ?case
  proof (cases n)
    case 0
    then show ?thesis by simp
  next
    case (Suc k)
    have f: "bigint_free (Some objectType)" "bigint_free (Some indexType)"
      by (rule free, simp)+
    from call_depth_deep [OF 13(4) [unfolded Suc]]
    have deep: "k < call_depth (Some objectType) \<or> k < call_depth (Some indexType)"
      by auto
    from formatType_fuel_cases [OF f(1), of k m] 13(1) [OF f(1)] 13(2) [OF f(2)] deep
    show ?thesis by (auto simp: Suc and_then_Inl and_then_Inr)
  qed
next
  case (15 m name targetType)
  show ?case
  proof (cases n)
    case 0
    then show ?thesis by simp
  next
    case (Suc k)
    from call_depth_deep [OF 15(3) [unfolded Suc]]
    have "k < call_depth (Some (PlainString ''predicate''))" by auto
    moreover have "bigint_free (Some (PlainString ''predicate''))"
      by (rule bigint_free_calls [OF 15(2)]) simp
    ultimately show ?thesis using 15(1) by (simp add: Suc and_then_Inl)
  qed
qed (subst (asm) call_depth.simps, cases n, simp_all)+

text \<open>
  C9, as the claim states it: the formatter returns a string on every finite type tree,
  whatever its depth. It does not: at the literal type of the bigint \<open>1n\<close> the call
  raises \<open>TypeError\<close>; and on a call stack with room for three nested calls the array
  type nested four deep raises \<open>RangeError\<close>, as a tree does on any stack once its
  calls nest deeper than the stack has room.
\<close>

theorem formatType_raises_counterexample:
  "formatType None (Some (Literal (LBigInt 1))) = Inl TypeError
   \<and> formatType_fuel 3 None (Some (Array (Array (Array (Intrinsic ''string'')))))
     = Inl RangeError"
  by code_simp

text \<open>
  C9, amended. On every finite type tree in which the formatter meets no bigint literal,
  and on a call stack with room for the nesting of the tree, the formatter returns a
  string after finitely many recursive calls: \<open>formatType\<close> is a total function, defined
  by recursion on the tree, and the call on a stack with room for \<open>n\<close> nested calls
  returns the string it computes as soon as \<open>n\<close> is at least the depth of the calls.
  The formatter has no depth limit of its own; the statement holds for every depth.
\<close>

theorem formatType_terminates:
  "bigint_free t \<Longrightarrow> call_depth t \<le> n \<Longrightarrow>
   \<exists>s. formatType_fuel n m t = Inr s \<and> formatType m t = Inr s"
  using formatType_bigint_free [of t m] formatType_fuel_enough [of t n m] by auto

theorem formatType_terminates_witness:
  "bigint_free
     (Some (Array (Union [Intrinsic ''string'', Reference ''Map'' [Intrinsic ''number'']])))
   \<and> call_depth
       (Some (Array (Union [Intrinsic ''string'', Reference ''Map'' [Intrinsic ''number'']])))
     \<le> 4
   \<and> formatType_fuel 4 None
       (Some (Array (Union [Intrinsic ''string'', Reference ''Map'' [Intrinsic ''number'']])))
     = Inr ''string | Map<number>[]''
   \<and> formatType None
       (Some (Array (Union [Intrinsic ''string'', Reference ''Map'' [Intrinsic ''number'']])))
     = Inr ''string | Map<number>[]''"
proof -
  let ?t = "Some (Array (Union [Intrinsic ''string'', Reference ''Map'' [Intrinsic ''number'']]))"
  have f: "bigint_free ?t" by code_simp
  have d: "call_depth ?t \<le> 4" by code_simp
  have v: "formatType None ?t = Inr ''string | Map<number>[]''" by code_simp
  from formatType_terminates [OF f d, of None] v f d show ?thesis by auto
qed
section \<open>The disclosure threshold of a class\<close>

lemma and_then_assoc:
  "and_then (and_then r f) g = and_then r (\<lambda>v. and_then (f v) g)"
  by (cases r) (simp_all add: and_then_def)





lemma class_methods_block_grouped:
  "3 < length methods \<Longrightarrow>
   class_methods_block this methods =
     and_then (collect (map (method_accordion this) methods))
       (\<lambda>accordions.
          Inr (''### Methods\<newline>\<newline>''
               @ accordionGroup (filter (\<lambda>acc. snd acc \<noteq> []) accordions)
               @ ''\<newline>\<newline>''))"
  by (auto simp: class_methods_block_def)


section \<open>The member table of an enum\<close>

text \<open>
  C7. An enum with two members, neither of which has a description, renders a table
  with exactly two member rows, and the description cell of both rows is the em dash
  U+2014, the three bytes E2 80 94 of its UTF-8 encoding. The enum with the members
  \<open>A = "A"\<close> and \<open>B = "B"\<close> is the instance of the witness.
\<close>

theorem renderEnum_two_members:
  "children_of_kind 16 e = [a, b] \<Longrightarrow>
   extractCommentText (summary_of (d_comment a)) = [] \<Longrightarrow>
   extractCommentText (summary_of (d_comment b)) = [] \<Longrightarrow>
   renderEnum this e =
     renderSummary this e @ renderComments (d_comment e)
     @ renderToc [''Members'']
     @ ''### Members\<newline>\<newline>''
     @ ''| Name | Value | Description |\<newline>''
     @ ''|------|-------|-------------|\<newline>''
     @ ''| `'' @ d_name a @ ''` | `'' @ or_default (d_defaultValue a) (d_name a) @ ''` | ''
       @ [CHR 0xE2, CHR 0x80, CHR 0x94] @ '' |\<newline>''
     @ ''| `'' @ d_name b @ ''` | `'' @ or_default (d_defaultValue b) (d_name b) @ ''` | ''
       @ [CHR 0xE2, CHR 0x80, CHR 0x94] @ '' |\<newline>''
     @ ''\<newline>''"
  by (simp add: renderEnum_def enum_member_row_def em_dash_def Let_def)

theorem renderEnum_two_members_witness:
  "children_of_kind 16 enum_AB = [enum_member ''A'' ''\"A\"'', enum_member ''B'' ''\"B\"'']
   \<and> extractCommentText (summary_of (d_comment (enum_member ''A'' ''\"A\"''))) = []
   \<and> extractCommentText (summary_of (d_comment (enum_member ''B'' ''\"B\"''))) = []
   \<and> renderEnum plain_renderer enum_AB =
       ''<Toc>\<newline>- [Members](#members)\<newline></Toc>\<newline>\<newline>''
       @ ''### Members\<newline>\<newline>''
       @ ''| Name | Value | Description |\<newline>''
       @ ''|------|-------|-------------|\<newline>''
       @ ''| `A` | `\"A\"` | '' @ [CHR 0xE2, CHR 0x80, CHR 0x94] @ '' |\<newline>''
       @ ''| `B` | `\"B\"` | '' @ [CHR 0xE2, CHR 0x80, CHR 0x94] @ '' |\<newline>''
       @ ''\<newline>''"
proof -
  let ?a = "enum_member ''A'' ''\"A\"''"
  let ?b = "enum_member ''B'' ''\"B\"''"
  have h1: "children_of_kind 16 enum_AB = [?a, ?b]" by code_simp
  have h2: "extractCommentText (summary_of (d_comment ?a)) = []" by code_simp
  have h3: "extractCommentText (summary_of (d_comment ?b)) = []" by code_simp
  have pre: "renderSummary plain_renderer enum_AB @ renderComments (d_comment enum_AB)
             @ renderToc [''Members'']
             = ''<Toc>\<newline>- [Members](#members)\<newline></Toc>\<newline>\<newline>''"
    by code_simp
  let ?rows =
    "''### Members\<newline>\<newline>''
     @ ''| Name | Value | Description |\<newline>''
     @ ''|------|-------|-------------|\<newline>''
     @ ''| `A` | `\"A\"` | '' @ [CHR 0xE2, CHR 0x80, CHR 0x94] @ '' |\<newline>''
     @ ''| `B` | `\"B\"` | '' @ [CHR 0xE2, CHR 0x80, CHR 0x94] @ '' |\<newline>''
     @ ''\<newline>''"
  have e: "renderEnum plain_renderer enum_AB =
     (renderSummary plain_renderer enum_AB @ renderComments (d_comment enum_AB)
      @ renderToc [''Members''])
     @ ''### Members\<newline>\<newline>''
     @ ''| Name | Value | Description |\<newline>''
     @ ''|------|-------|-------------|\<newline>''
     @ ''| `'' @ d_name ?a @ ''` | `'' @ or_default (d_defaultValue ?a) (d_name ?a) @ ''` | ''
       @ [CHR 0xE2, CHR 0x80, CHR 0x94] @ '' |\<newline>''
     @ ''| `'' @ d_name ?b @ ''` | `'' @ or_default (d_defaultValue ?b) (d_name ?b) @ ''` | ''
       @ [CHR 0xE2, CHR 0x80, CHR 0x94] @ '' |\<newline>''
     @ ''\<newline>''"
    using renderEnum_two_members [OF h1 h2 h3, of plain_renderer] by simp
  have "renderEnum plain_renderer enum_AB
        = ''<Toc>\<newline>- [Members](#members)\<newline></Toc>\<newline>\<newline>'' @ ?rows"
    by (subst e, subst pre) (simp add: enum_member_def or_default_def)
  with h1 h2 h3 show ?thesis by simp
qed

section \<open>Parameter descriptions\<close>

text \<open>
  C8. The claim is that every parameter description emitted in a parameter field ends
  with exactly one period. \<open>renderParameters\<close> emits a description supplied in the
  comment as it is: the parameter \<open>name: string\<close> documented as "the user name" is
  rendered with the description "the user name", without a period. The page renderer's
  \<open>transformParameters\<close> adds the period for the same field.
\<close>

theorem renderParameters_supplied_description:
  "renderParameters plain_renderer [documented_parameter]
   = Inr (''<ParamField path=\"name\" type=\"string\" required>\<newline>''
          @ ''the user name\<newline>''
          @ ''</ParamField>\<newline>\<newline>'')"
  by code_simp

lemma transformParameters_supplied_description:
  "transformParameters
     (''###### Parameters\<newline>\<newline>'' @ bullet @ '' **name**: `string` the user name'')
   = ''###### Parameters\<newline>\<newline>''
     @ ''<ParamField path=\"name\" type=\"string\" required>\<newline>''
     @ ''the user name.\<newline>''
     @ ''</ParamField>\<newline>\<newline>''"
  by code_simp

section \<open>The map from type names to URLs\<close>













text \<open>
  Where the index page is itself taken for an individual page, as with the entry file
  \<open>enums/index\<close>, no page is added and the map stays empty.
\<close>

lemma getUrls_entry_in_folder:
  "snd (getUrls (recommended_options\<lparr>entryFileName := Some ''enums/index''\<rparr>) []
          project_Foo_Bar []) = []"
  by code_simp
section \<open>Links and fenced code\<close>

text \<open>
  The line-by-line part of \<open>addTypeLinksToIndexPage\<close> honours a fence: a standalone
  name in backticks is linked outside the fence and left alone inside it.
\<close>

lemma addTypeLinksToIndexPage_fence_kept:
  "addTypeLinksToIndexPage [(''Foo'', ''api/classes/Foo'')]
     ''```\<newline>`Foo`\<newline>```\<newline>`Foo` here''
   = ''```\<newline>`Foo`\<newline>```\<newline>[Foo](/api/classes/Foo) here''"
  by code_simp

text \<open>
  C4. The claim is that link injection never introduces a link inside a fenced block.
  The pattern for types in parameter lists is applied to the whole text, after the
  lines have been joined again, and does not look at fences: in the document of three
  lines below, the second line lies between the opening and the closing fence, and the
  name \<open>Foo\<close> on it is turned into a link.
\<close>

theorem addTypeLinksToIndexPage_links_inside_fence:
  "addTypeLinksToIndexPage [(''Foo'', ''api/classes/Foo'')]
     ''```\<newline>opts: `Foo`\<newline>```''
   = ''```\<newline>opts: [`Foo`](/api/classes/Foo)\<newline>```''"
  by code_simp

section \<open>Tag balance and heading depth\<close>

text \<open>
  \<open>flattenHeadings\<close> on a sample: a heading of level 5 or 6 becomes bold text up to
  the end of its line, which a carriage return or the separator U+2028 ends as well; a
  heading whose text starts with such a separator, one without text, and seven hashes
  stay as they are.
\<close>

lemma flattenHeadings_sample:
  "flattenHeadings
     (''##### a'' @ [CHR 0xE2, CHR 0x80, CHR 0xA8] @ ''b\<newline>##### ''
      @ [CHR 0xE2, CHR 0x80, CHR 0xA8] @ ''c\<newline>###### d e'' @ [CR]
      @ ''##### \<newline>####### e\<newline>##### ###### f'')
   = ''**a**'' @ [CHR 0xE2, CHR 0x80, CHR 0xA8] @ ''b\<newline>##### ''
     @ [CHR 0xE2, CHR 0x80, CHR 0xA8] @ ''c\<newline>**d e**'' @ [CR]
     @ ''##### \<newline>####### e\<newline>**###### f**''"
  by code_simp

text \<open>
  The tag stage keeps a closing tag that follows another one on its line: only the
  first closing tag of a line is looked at.
\<close>

lemma beautifyStructure_second_close_kept:
  "beautifyStructure ''<Aa>\<newline></Aa></Bb>'' = ''<Aa>\<newline></Aa></Bb>''"
  by code_simp

text \<open>
  C2. The claim is that after the repair pass every container element left in the text
  has a matching open and close. \<open>beautifyStructure\<close>, which is documented to "ensure
  proper tag matching", removes orphaned closing tags only: the document that opens a
  \<open>Note\<close> and never closes it comes back as it is, with the element still open.
\<close>

theorem beautifyStructure_unclosed_element:
  "beautifyStructure ''<Note>\<newline>text'' = ''<Note>\<newline>text''"
  by code_simp
section \<open>Idempotence\<close>

lemma js_split_not_Nil: "js_split sep s \<noteq> []"
  by (induction s) (auto split: list.splits)

lemma js_split_no_sep: "l \<in> set (js_split sep s) \<Longrightarrow> sep \<notin> set l"
proof (induction s arbitrary: l)
  case Nil
  then show ?case by simp
next
  case (Cons c cs)
  show ?case
  proof (cases "c = sep")
    case True
    with Cons show ?thesis by auto
  next
    case False
    obtain p ps where ps: "js_split sep cs = p # ps"
      using js_split_not_Nil [of sep cs] by (cases "js_split sep cs") auto
    with Cons.prems False have "l = c # p \<or> l \<in> set ps" by simp
    with Cons.IH ps False show ?thesis by auto
  qed
qed

lemma js_split_line: "sep \<notin> set l \<Longrightarrow> js_split sep l = [l]"
  by (induction l) auto

lemma js_split_append_sep:
  "sep \<notin> set l \<Longrightarrow> js_split sep (l @ sep # rest) = l # js_split sep rest"
  by (induction l) auto

lemma js_split_join:
  "ls \<noteq> [] \<Longrightarrow> (\<And>l. l \<in> set ls \<Longrightarrow> sep \<notin> set l) \<Longrightarrow>
   js_split sep (js_join [sep] ls) = ls"
proof (induction ls)
  case Nil
  then show ?case by simp
next
  case (Cons l ls)
  show ?case
  proof (cases ls)
    case Nil
    with Cons.prems show ?thesis by (simp add: js_split_line)
  next
    case (Cons m ms)
    with Cons.prems Cons.IH have "js_split sep (js_join [sep] ls) = ls" by simp
    moreover have "sep \<notin> set l" using Cons.prems by simp
    ultimately show ?thesis using Cons by (simp add: js_split_append_sep)
  qed
qed

lemma balance_tags_subset: "set (balance_tags tagStack ls) \<subseteq> set ls"
  by (induction ls arbitrary: tagStack) (auto split: option.splits if_splits)

lemma balance_tags_idem:
  "balance_tags tagStack (balance_tags tagStack ls) = balance_tags tagStack ls"
proof (induction ls arbitrary: tagStack)
  case Nil
  show ?case by simp
next
  case (Cons line rest)
  show ?case
  proof (cases "openTagMatch line")
    case (Some tagName)
    then show ?thesis using Cons.IH by simp
  next
    case None
    note no_open = None
    show ?thesis
    proof (cases "closeTagMatch line")
      case None
      with no_open show ?thesis using Cons.IH by simp
    next
      case (Some tagName)
      show ?thesis
      proof (cases tagStack)
        case Nil
        with no_open Some show ?thesis using Cons.IH [of "[]"] by simp
      next
        case (Cons top below)
        with no_open Some show ?thesis
          using Cons.IH [of "top # below"] Cons.IH [of below]
            Cons.IH [of "close_tag tagName (top # below)"]
          by simp
      qed
    qed
  qed
qed

lemma no_tag_in_empty_line: "openTagMatch [] = None \<and> closeTagMatch [] = None"
  by code_simp

lemma balanceTagLines_idem: "balanceTagLines (balanceTagLines content) = balanceTagLines content"
proof (cases "balance_tags [] (js_split LF content) = []")
  case True
  then have "balanceTagLines content = []" by (simp add: balanceTagLines_def)
  then show ?thesis by (simp add: balanceTagLines_def no_tag_in_empty_line)
next
  case False
  let ?out = "balance_tags [] (js_split LF content)"
  have "\<And>l. l \<in> set ?out \<Longrightarrow> LF \<notin> set l"
    using balance_tags_subset [of "[]" "js_split LF content"] js_split_no_sep [of _ LF content]
    by blast
  with False have "js_split LF (js_join [LF] ?out) = ?out" by (rule js_split_join)
  then show ?thesis by (simp add: balanceTagLines_def balance_tags_idem)
qed

text \<open>
  C3, as the claim states it: repairing a repaired document changes nothing. In the
  document below four lines that hold one space each lie between \<open>a\<close> and \<open>b\<close>. The
  first run collapses no line feeds, since the spaces separate them, and then strips
  the spaces, which leaves five line feeds in a row; the second run collapses them to
  three.
\<close>

lemma beautifyStructure_first_run:
  "beautifyStructure ''a\<newline> \<newline> \<newline> \<newline> \<newline>b''
   = ''a\<newline>\<newline>\<newline>\<newline>\<newline>b''"
  by code_simp

lemma beautifyStructure_second_run:
  "beautifyStructure ''a\<newline>\<newline>\<newline>\<newline>\<newline>b'' = ''a\<newline>\<newline>\<newline>b''"
  by code_simp

theorem beautifyStructure_idempotence_counterexample:
  "beautifyStructure (beautifyStructure ''a\<newline> \<newline> \<newline> \<newline> \<newline>b'')
   \<noteq> beautifyStructure ''a\<newline> \<newline> \<newline> \<newline> \<newline>b''"
  unfolding beautifyStructure_first_run beautifyStructure_second_run by simp

text \<open>
  C3, amended. The tag stage of the repair pass is idempotent: for every document,
  applying the stage to its own output yields the same text. (The cleanups that
  follow the stage are single passes of replacement and are not idempotent together.)
\<close>

theorem balanceTagLines_idempotent:
  "balanceTagLines (balanceTagLines content) = balanceTagLines content"
  by (rule balanceTagLines_idem)

end
